theory Spec2Isabelle
  imports Complex_Main "HOL-Library.Product_Lexorder" "HOL-Library.Multiset"
begin

section \<open>Python strings\<close>

text \<open>
  A Python \<open>str\<close> is a sequence of code points.  It is modelled as a \<open>string\<close> whose
  characters are the code points below 256 (Latin-1), so that \<open>length\<close> counts code
  points and the one non-ASCII letter of the header table (U+00E0) is one character.
\<close>

definition py_isspace :: "char \<Rightarrow> bool" where
  \<comment> \<open>\<open>str.isspace\<close> on the code points below 256\<close>
  "py_isspace c = (of_char c \<in> {9, 10, 11, 12, 13, 28, 29, 30, 31, 32, 133, 160 :: nat})"

definition lstrip :: "string \<Rightarrow> string" where
  "lstrip s = dropWhile py_isspace s"

definition rstrip :: "string \<Rightarrow> string" where
  "rstrip s = rev (dropWhile py_isspace (rev s))"

definition strip :: "string \<Rightarrow> string" where
  "strip s = rstrip (lstrip s)"

definition startswith :: "string \<Rightarrow> string \<Rightarrow> bool" where
  "startswith s p = (take (length p) s = p)"

fun py_in :: "string \<Rightarrow> string \<Rightarrow> bool" where
  \<comment> \<open>\<open>p in s\<close> on strings: \<open>p\<close> occurs in \<open>s\<close> as a contiguous substring\<close>
  "py_in p [] = (p = [])"
| "py_in p (c # cs) = (startswith (c # cs) p \<or> py_in p cs)"

fun search_from :: "(string \<Rightarrow> bool) \<Rightarrow> string \<Rightarrow> nat \<Rightarrow> nat option" where
  \<comment> \<open>offset of the first suffix of the text that satisfies \<open>P\<close>, counted from \<open>k\<close>\<close>
  "search_from P [] k = (if P [] then Some k else None)"
| "search_from P (c # cs) k = (if P (c # cs) then Some k else search_from P cs (Suc k))"

definition py_find :: "string \<Rightarrow> string \<Rightarrow> nat option" where
  \<comment> \<open>start of the first occurrence of the literal \<open>p\<close> in \<open>s\<close>:
      \<open>re.search(re.escape(p), s)\<close>\<close>
  "py_find p s = search_from (\<lambda>t. startswith t p) s 0"

definition truthy :: "string option \<Rightarrow> bool" where
  \<comment> \<open>truth value of an optional string: \<open>None\<close> and \<open>''\<close> are false\<close>
  "truthy v = (case v of None \<Rightarrow> False | Some s \<Rightarrow> s \<noteq> [])"

definition get_or_empty :: "string option \<Rightarrow> string" where
  \<comment> \<open>\<open>d.get(key, '')\<close>\<close>
  "get_or_empty v = (case v of None \<Rightarrow> [] | Some s \<Rightarrow> s)"


section \<open>Decimal numbers and \<open>parse_italian_decimal\<close> (\<open>utils/helpers.py\<close>)\<close>

text \<open>
  A finite \<open>decimal.Decimal\<close> is modelled by the rational number it denotes, and the
  arithmetic on it is exact: Python's context rounds a result to 28 significant digits,
  which no amount of an invoice reaches.  The constructor \<open>Decimal(str)\<close> is modelled
  on the numeric strings that denote finite numbers (sign, digits, point, exponent,
  underscores and surrounding blanks ignored); every other string raises
  \<open>InvalidOperation\<close>.  The spellings of infinities and NaNs are outside the model.
\<close>

datatype exn = InvalidOperation

type_synonym decimal = rat

definition is_digit :: "char \<Rightarrow> bool" where
  "is_digit c = (48 \<le> (of_char c :: nat) \<and> (of_char c :: nat) \<le> 57)"

definition digits_value :: "string \<Rightarrow> nat" where
  "digits_value ds = foldl (\<lambda>a c. 10 * a + (of_char c - 48)) 0 ds"

definition take_sign :: "string \<Rightarrow> bool \<times> string" where
  \<comment> \<open>an optional sign: whether it is a minus, and the rest\<close>
  "take_sign s = (case s of
       c # cs \<Rightarrow> if c = CHR ''-'' then (True, cs) else if c = CHR ''+'' then (False, cs) else (False, s)
     | [] \<Rightarrow> (False, []))"

definition parse_exponent :: "string \<Rightarrow> int option" where
  \<comment> \<open>the exponent part, which must reach the end of the string\<close>
  "parse_exponent s = (case s of
       [] \<Rightarrow> Some 0
     | c # cs \<Rightarrow>
         if c = CHR ''e'' \<or> c = CHR ''E'' then
           (let (neg, ds) = take_sign cs in
            if ds \<noteq> [] \<and> list_all is_digit ds
            then Some (if neg then - int (digits_value ds) else int (digits_value ds))
            else None)
         else None)"

definition scale10 :: "rat \<Rightarrow> int \<Rightarrow> rat" where
  "scale10 m e = (if 0 \<le> e then m * 10 ^ nat e else m / 10 ^ nat (- e))"

definition Decimal :: "string \<Rightarrow> exn + decimal" where
  "Decimal s =
     (let t = filter (\<lambda>c. c \<noteq> CHR ''_'') (strip s);
          (neg, r0) = take_sign t;
          ip = takeWhile is_digit r0;
          r1 = dropWhile is_digit r0;
          (fp, r2) = (case r1 of
                        c # cs \<Rightarrow> if c = CHR ''.'' then (takeWhile is_digit cs, dropWhile is_digit cs)
                                  else ([], r1)
                      | [] \<Rightarrow> ([], []))
      in if ip = [] \<and> fp = [] then Inl InvalidOperation
         else (case parse_exponent r2 of
                 None \<Rightarrow> Inl InvalidOperation
               | Some e \<Rightarrow>
                   (let m = scale10 (of_nat (digits_value (ip @ fp))) (e - int (length fp))
                    in Inr (if neg then - m else m))))"

fun split_on :: "char \<Rightarrow> string \<Rightarrow> string list" where
  \<comment> \<open>\<open>s.split(c)\<close> for a one-character separator\<close>
  "split_on c [] = [[]]"
| "split_on c (x # xs) =
     (if x = c then [] # split_on c xs
      else (case split_on c xs of p # ps \<Rightarrow> (x # p) # ps | [] \<Rightarrow> [[x]]))"

definition replace_char :: "char \<Rightarrow> char \<Rightarrow> string \<Rightarrow> string" where
  "replace_char a b s = map (\<lambda>c. if c = a then b else c) s"

definition remove_char :: "char \<Rightarrow> string \<Rightarrow> string" where
  "remove_char a s = filter (\<lambda>c. c \<noteq> a) s"

definition standardize :: "string \<Rightarrow> string" where
  \<comment> \<open>the three cases of the source on the stripped text\<close>
  "standardize cleaned_value =
     (if CHR '','' \<in> set cleaned_value \<and> CHR ''.'' \<in> set cleaned_value then
        (let parts = split_on CHR '','' cleaned_value in
         if length parts = 2
         then remove_char CHR ''.'' (parts ! 0) @ ''.'' @ parts ! 1
         else replace_char CHR '','' CHR ''.'' (remove_char CHR ''.'' cleaned_value))
      else if CHR '','' \<in> set cleaned_value then replace_char CHR '','' CHR ''.'' cleaned_value
      else cleaned_value)"

definition numeric_part_at :: "string \<Rightarrow> string option" where
  \<comment> \<open>a match of \<open>[-+]?\d*[.,]?\d+\<close> that starts at the head of the string: the
      greedy choice first (sign, all digits, separator, digits), then the one the
      backtracking reaches (sign and digits only)\<close>
  "numeric_part_at s =
     (let (sg, r0) = (case s of
                        c # cs \<Rightarrow> if c = CHR ''-'' \<or> c = CHR ''+'' then ([c], cs) else ([], s)
                      | [] \<Rightarrow> ([], []));
          ds = takeWhile is_digit r0;
          r1 = dropWhile is_digit r0
      in (case r1 of
            c # cs \<Rightarrow>
              if (c = CHR ''.'' \<or> c = CHR '','') \<and> takeWhile is_digit cs \<noteq> []
              then Some (sg @ ds @ [c] @ takeWhile is_digit cs)
              else if ds \<noteq> [] then Some (sg @ ds) else None
          | [] \<Rightarrow> if ds \<noteq> [] then Some (sg @ ds) else None))"

fun numeric_part_search :: "string \<Rightarrow> string option" where
  \<comment> \<open>\<open>re.search\<close>: the match at the leftmost position that has one\<close>
  "numeric_part_search [] = numeric_part_at []"
| "numeric_part_search (c # cs) =
     (case numeric_part_at (c # cs) of Some g \<Rightarrow> Some g | None \<Rightarrow> numeric_part_search cs)"

definition parse_italian_decimal_str :: "string \<Rightarrow> exn + decimal option" where
  "parse_italian_decimal_str text_value =
     (let cleaned_value = strip text_value in
      if cleaned_value = [] then Inr None
      else (case Decimal (standardize cleaned_value) of
              Inr result \<Rightarrow> Inr (Some result)
            | Inl InvalidOperation \<Rightarrow>
                (case numeric_part_search cleaned_value of
                   Some g \<Rightarrow>
                     (case Decimal (replace_char CHR '','' CHR ''.'' g) of
                        Inr result \<Rightarrow> Inr (Some result)
                      | Inl InvalidOperation \<Rightarrow> Inr None)
                 | None \<Rightarrow> Inr None)))"

text \<open>
  The values the function accepts besides a string.  A float argument goes through
  \<open>str(float)\<close> and is not modelled; any other type is answered with \<open>None\<close>.
\<close>

datatype py_value = PyNone | PyDecimal decimal | PyInt int | PyStr string | PyOther

definition parse_italian_decimal :: "py_value \<Rightarrow> exn + decimal option" where
  "parse_italian_decimal text_value =
     (case text_value of
        PyNone \<Rightarrow> Inr None
      | PyDecimal d \<Rightarrow> Inr (Some d)
      | PyInt i \<Rightarrow> Inr (Some (of_int i))
      | PyOther \<Rightarrow> Inr None
      | PyStr s \<Rightarrow> parse_italian_decimal_str s)"





section \<open>Data model (\<open>models/invoice_models.py\<close>)\<close>

text \<open>
  The dataclasses, with the fields the extraction, validation and compilation steps
  read.  The Camelot tables of a page and the LLM settings of the configuration are
  left out.  Several classes have a field of the same name; it is written with the
  class in front, as in \<open>DeliveryData.products d\<close>.
\<close>

record BillData =
  bill_number :: "string option"
  bill_date :: "string option"
  currency :: "string option"
  customer_code :: "string option"
  customer_name :: "string option"
  customer_address :: "string option"
  customer_vat_id :: "string option"
  gross_weight_kg :: "string option"
  net_weight_kg :: "string option"
  package_count :: "int option"
  shipping_term :: "string option"
  total_amount :: "string option"

record ProductData =
  product_code :: "string option"
  description :: "string option"
  customs_code :: "string option"
  unit_of_measure :: "string option"
  quantity :: "string option"
  unit_price :: "string option"
  total_price :: "string option"

record DeliveryData =
  ddt_series :: "string option"
  ddt_number :: "string option"
  ddt_date :: "string option"
  ddt_reason :: "string option"
  model_number :: "string option"
  model_name :: "string option"
  order_series :: "string option"
  order_number :: "string option"
  product_name :: "string option"
  product_properties :: "string option"
  products :: "ProductData list"

record PageData =
  page_number :: nat
  raw_text :: string
  products :: "ProductData list"
  delivery_info :: "DeliveryData option"
  all_deliveries :: "DeliveryData list"
  errors :: "string list"

text \<open>
  The validation messages are formatted strings in the source; each kind of message is
  a constructor here, with the values the message is formatted from.  Product numbers
  in messages count from 1.
\<close>

datatype validation_error =
    InvalidNumericFields nat
  | MissingCriticalPricingFields nat
  | CannotParsePricingFields nat
  | PriceCalculationMismatch nat decimal decimal decimal
  | ErrorValidatingPriceCalculation nat
  | NoRawTextAvailable
  | CodeNotFoundInRawText nat string

record corrections =
  corrected_products :: "ProductData list"
  correction_notes :: "string list"

record ValidationResult =
  page_number :: nat
  is_valid :: bool
  confidence_score :: rat
  validation_errors :: "validation_error list"
  corrected_data :: "corrections option"

record ProcessingConfig =
  enable_ocr_validation :: bool
  ocr_confidence_threshold :: rat
  max_pages_to_process :: "nat option"
  validate_checksums :: bool

datatype compile_error =
    ChecksumMismatch decimal decimal decimal
  | CouldNotParseStatedTotal
  | NoTotalAmountFound
  | ErrorDuringChecksumValidation

datatype final_message =
    ParsingFailedWithErrors
  | CompletedWithWarnings
  | CompletedButChecksumFailed
  | CompletedButPagesFailedValidation nat
  | CompletedSuccessfully

record ExtractionResult =
  success :: bool
  bill_data :: "BillData option"
  delivery_data :: "DeliveryData list"
  products :: "ProductData list"
  page_data :: "PageData list"
  validation_results :: "ValidationResult list"
  raw_text :: "(nat \<times> string) list"
  validation_checksum_ok :: bool
  parsing_errors :: "compile_error list"
  message :: "final_message option"


section \<open>Consistency validation (\<open>validators/ocr_validator.py\<close>)\<close>

text \<open>
  Confidence scores and the threshold are Python floats.  They are modelled as
  rationals: every operation on them is exact, and \<open>round(x, 3)\<close> rounds the exact
  value to three decimals, ties to the even neighbour.
\<close>

definition round_half_even :: "rat \<Rightarrow> int" where
  "round_half_even x =
     (let f = \<lfloor>x\<rfloor>; d = x - of_int f
      in if d < 1 / 2 then f else if 1 / 2 < d then f + 1 else if even f then f else f + 1)"

definition round3 :: "rat \<Rightarrow> rat" where
  \<comment> \<open>\<open>round(x, 3)\<close>\<close>
  "round3 x = of_int (round_half_even (x * 1000)) / 1000"

definition parse_field :: "string option \<Rightarrow> exn + decimal option" where
  \<comment> \<open>\<open>parse_italian_decimal\<close> applied to an optional string field\<close>
  "parse_field v = parse_italian_decimal (case v of None \<Rightarrow> PyNone | Some s \<Rightarrow> PyStr s)"

definition decimal_truthy :: "decimal option \<Rightarrow> bool" where
  \<comment> \<open>truth value of an optional Decimal: \<open>None\<close> and zero are false\<close>
  "decimal_truthy v = (case v of None \<Rightarrow> False | Some d \<Rightarrow> d \<noteq> 0)"

definition validate_numeric_field :: "string option \<Rightarrow> bool" where
  "validate_numeric_field field_value =
     (if \<not> truthy field_value then False
      else (case parse_field field_value of
              Inl e \<Rightarrow> False
            | Inr parsed \<Rightarrow> (case parsed of None \<Rightarrow> False | Some d \<Rightarrow> 0 \<le> d)))"

definition validate_price_calculation :: "ProductData \<Rightarrow> nat \<Rightarrow> validation_error option" where
  \<comment> \<open>\<open>None\<close> when the calculation is consistent; an exception of a parse is caught and
      reported as an error of its own\<close>
  "validate_price_calculation product product_index =
     (case (parse_field (quantity product), parse_field (unit_price product),
            parse_field (total_price product)) of
        (Inr q, Inr u, Inr t) \<Rightarrow>
          if \<not> (decimal_truthy q \<and> decimal_truthy u \<and> decimal_truthy t)
          then Some (CannotParsePricingFields (product_index + 1))
          else (let calculated_total = the q * the u;
                    difference = \<bar>calculated_total - the t\<bar>;
                    tolerance = max (1 / 100) (the t * (1 / 1000))
                in if tolerance < difference
                   then Some (PriceCalculationMismatch (product_index + 1) calculated_total (the t) difference)
                   else None)
      | _ \<Rightarrow> Some (ErrorValidatingPriceCalculation (product_index + 1)))"

record product_validation =
  pv_errors :: "validation_error list"
  consistency_score :: rat
  valid_products :: nat
  total_products :: nat

fun consistency_loop ::
  "ProductData list \<Rightarrow> nat \<Rightarrow> validation_error list \<Rightarrow> nat \<Rightarrow> validation_error list \<times> nat" where
  \<comment> \<open>the loop over \<open>enumerate(products)\<close>, from index \<open>i\<close>, with the errors and the count of
      valid products so far\<close>
  "consistency_loop [] i errs valid = (errs, valid)"
| "consistency_loop (product # rest) i errs valid =
     (if \<not> (validate_numeric_field (quantity product) \<and>
             validate_numeric_field (unit_price product) \<and>
             validate_numeric_field (total_price product))
      then consistency_loop rest (i + 1) (errs @ [InvalidNumericFields (i + 1)]) valid
      else if truthy (quantity product) \<and> truthy (unit_price product) \<and> truthy (total_price product)
      then (case validate_price_calculation product i of
              Some calc_error \<Rightarrow> consistency_loop rest (i + 1) (errs @ [calc_error]) valid
            | None \<Rightarrow> consistency_loop rest (i + 1) errs (valid + 1))
      else consistency_loop rest (i + 1) (errs @ [MissingCriticalPricingFields (i + 1)]) valid)"

definition validate_products_consistency :: "ProductData list \<Rightarrow> product_validation" where
  "validate_products_consistency prods =
     (let (errs, valid) = consistency_loop prods 0 [] 0;
          total = length prods
      in \<lparr>pv_errors = errs,
          consistency_score = (if 0 < total then of_nat valid / of_nat total else 0),
          valid_products = valid,
          total_products = total\<rparr>)"

definition py_isalnum :: "char \<Rightarrow> bool" where
  \<comment> \<open>\<open>str.isalnum\<close> on the code points below 256\<close>
  "py_isalnum c =
     (let n = (of_char c :: nat)
      in (48 \<le> n \<and> n \<le> 57) \<or> (65 \<le> n \<and> n \<le> 90) \<or> (97 \<le> n \<and> n \<le> 122) \<or>
         n \<in> {170, 178, 179, 181, 185, 186, 188, 189, 190} \<or>
         (192 \<le> n \<and> n \<le> 214) \<or> (216 \<le> n \<and> n \<le> 246) \<or> (248 \<le> n \<and> n \<le> 255))"

definition generate_code_variants :: "string \<Rightarrow> string list" where
  \<comment> \<open>the source returns \<open>list(set(variants))\<close>, whose order is not fixed; the caller only
      asks whether some variant occurs in the text\<close>
  "generate_code_variants code =
     (let variants = [code];
          cleaned = filter py_isalnum code;
          variants = (if cleaned \<noteq> code then variants @ [cleaned] else variants);
          variants = (if CHR ''.'' \<in> set code
                      then variants @ [replace_char CHR ''.'' CHR '' '' code] else variants);
          variants = (if CHR '' '' \<in> set code
                      then variants @ [replace_char CHR '' '' CHR ''.'' code] else variants)
      in remdups variants)"

record text_validation =
  tv_errors :: "validation_error list"
  text_match_score :: rat

definition code_found :: "string \<Rightarrow> string \<Rightarrow> bool" where
  \<comment> \<open>the code itself occurs in the text, or one of its variants does\<close>
  "code_found raw code =
     (py_in code raw \<or> list_ex (\<lambda>variant. py_in variant raw) (generate_code_variants code))"

fun cross_reference_loop ::
  "ProductData list \<Rightarrow> string \<Rightarrow> nat \<Rightarrow> validation_error list \<Rightarrow> nat \<Rightarrow> validation_error list \<times> nat" where
  "cross_reference_loop [] raw i errs found = (errs, found)"
| "cross_reference_loop (product # rest) raw i errs found =
     (if truthy (product_code product) then
        (if code_found raw (the (product_code product))
         then cross_reference_loop rest raw (i + 1) errs (found + 1)
         else cross_reference_loop rest raw (i + 1)
                (errs @ [CodeNotFoundInRawText (i + 1) (the (product_code product))]) found)
      else cross_reference_loop rest raw (i + 1) errs found)"

definition cross_reference_with_text :: "ProductData list \<Rightarrow> string \<Rightarrow> text_validation" where
  "cross_reference_with_text prods raw =
     (if raw = [] then \<lparr>tv_errors = [NoRawTextAvailable], text_match_score = 0\<rparr>
      else (let (errs, found) = cross_reference_loop prods raw 0 [] 0
            in \<lparr>tv_errors = errs,
                text_match_score = (if prods \<noteq> [] then of_nat found / of_nat (length prods) else 0)\<rparr>))"

definition calculate_confidence_score :: "product_validation \<Rightarrow> text_validation \<Rightarrow> rat" where
  "calculate_confidence_score pv tv =
     (let consistency_weight = 6 / 10;
          text_match_weight = 4 / 10;
          overall_score = consistency_score pv * consistency_weight + text_match_score tv * text_match_weight;
          error_count = length (pv_errors pv) + length (tv_errors tv);
          overall_score =
            (if 0 < error_count
             then (let error_penalty = min (2 / 10 * of_nat error_count) (5 / 10)
                   in max 0 (overall_score - error_penalty))
             else overall_score)
      in round3 overall_score)"

text \<open>
  \<open>_generate_corrections\<close> renders decimals and reads the error messages as text.  No
  property below depends on what it returns, so it is a parameter of the validation.
  The functions called inside the \<open>try\<close> block of \<open>validate_page_data\<close> catch their own
  exceptions, so the handler of that block is never entered and has no branch here.
\<close>

definition validate_page_data ::
  "(ProductData list \<Rightarrow> validation_error list \<Rightarrow> corrections) \<Rightarrow> ProcessingConfig \<Rightarrow> PageData
     \<Rightarrow> ValidationResult" where
  "validate_page_data generate_corrections config page =
     (let validation_result =
            \<lparr>page_number = PageData.page_number page, is_valid = True, confidence_score = 1,
             validation_errors = [], corrected_data = None\<rparr>
      in if \<not> enable_ocr_validation config
         then validation_result\<lparr>confidence_score := 8 / 10\<rparr>
         else
           (let pv = validate_products_consistency (PageData.products page);
                tv = cross_reference_with_text (PageData.products page) (PageData.raw_text page);
                errs = pv_errors pv @ tv_errors tv;
                score = calculate_confidence_score pv tv;
                valid = (ocr_confidence_threshold config \<le> score \<and> length errs = 0)
            in validation_result
                 \<lparr>validation_errors := errs,
                  confidence_score := score,
                  is_valid := valid,
                  corrected_data :=
                    (if \<not> valid then Some (generate_corrections (PageData.products page) errs)
                     else None)\<rparr>))"


section \<open>Result compilation (\<open>extractors/response_compiler.py\<close>)\<close>

text \<open>
  The source mutates the delivery objects it collected from the pages.  The model passes
  values: a delivery is the record as collected, and an update returns the new record.
  The regular-expression searches of \<open>_extract_delivery_completion\<close> and of the footer
  scan are not modelled; both are parameters, and what is proved holds for whatever they
  return.
\<close>

record completion_data =
  cd_model_number :: "string option"
  cd_model_name :: "string option"
  cd_order_series :: "string option"
  cd_order_number :: "string option"
  cd_product_name :: "string option"
  cd_product_properties :: "string option"

definition collect_page_deliveries :: "PageData \<Rightarrow> DeliveryData list" where
  \<comment> \<open>the deliveries of one page: \<open>all_deliveries\<close>, or else the single \<open>delivery_info\<close>
      with all products of the page\<close>
  "collect_page_deliveries page =
     (if all_deliveries page = [] then
        (case delivery_info page of
           Some d \<Rightarrow> [d\<lparr>DeliveryData.products := PageData.products page\<rparr>]
         | None \<Rightarrow> [])
      else all_deliveries page)"

definition collect_deliveries :: "PageData list \<Rightarrow> DeliveryData list" where
  "collect_deliveries pages = concat (map collect_page_deliveries pages)"

definition empty_delivery :: DeliveryData where
  \<comment> \<open>\<open>DeliveryData()\<close>\<close>
  "empty_delivery =
     \<lparr>ddt_series = None, ddt_number = None, ddt_date = None, ddt_reason = None,
      model_number = None, model_name = None, order_series = None, order_number = None,
      product_name = None, product_properties = None, products = []\<rparr>"

definition is_incomplete :: "DeliveryData \<Rightarrow> bool" where
  "is_incomplete d =
     (truthy (ddt_series d) \<and> truthy (ddt_number d) \<and>
      (\<not> truthy (model_number d) \<or> \<not> truthy (product_name d)))"

definition apply_completion :: "completion_data \<Rightarrow> DeliveryData \<Rightarrow> DeliveryData" where
  \<comment> \<open>each field that the completion found replaces the field of the delivery\<close>
  "apply_completion c d =
     (let d = (if truthy (cd_model_number c) then d\<lparr>model_number := cd_model_number c\<rparr> else d);
          d = (if truthy (cd_model_name c) then d\<lparr>model_name := cd_model_name c\<rparr> else d);
          d = (if truthy (cd_order_series c) then d\<lparr>order_series := cd_order_series c\<rparr> else d);
          d = (if truthy (cd_order_number c) then d\<lparr>order_number := cd_order_number c\<rparr> else d);
          d = (if truthy (cd_product_name c) then d\<lparr>product_name := cd_product_name c\<rparr> else d);
          d = (if truthy (cd_product_properties c)
               then d\<lparr>product_properties := cd_product_properties c\<rparr> else d)
      in d)"

fun completion_search ::
  "(DeliveryData \<Rightarrow> string \<Rightarrow> completion_data option) \<Rightarrow> DeliveryData \<Rightarrow> nat \<Rightarrow> PageData list
     \<Rightarrow> DeliveryData" where
  \<comment> \<open>the loop over the pages after the source page, at most two pages ahead\<close>
  "completion_search edc d source_page [] = d"
| "completion_search edc d source_page (page # rest) =
     (if PageData.page_number page \<le> source_page then completion_search edc d source_page rest
      else if source_page + 2 < PageData.page_number page then d
      else (case edc d (PageData.raw_text page) of
              Some c \<Rightarrow> apply_completion c d
            | None \<Rightarrow> completion_search edc d source_page rest))"

definition complete_delivery ::
  "(DeliveryData \<Rightarrow> string \<Rightarrow> completion_data option) \<Rightarrow> PageData list \<Rightarrow> DeliveryData
     \<Rightarrow> DeliveryData" where
  "complete_delivery edc pages d =
     (case find (\<lambda>page. d \<in> set (all_deliveries page)) pages of
        None \<Rightarrow> d
      | Some page \<Rightarrow> completion_search edc d (PageData.page_number page) pages)"

definition merge_cross_page_deliveries ::
  "(DeliveryData \<Rightarrow> string \<Rightarrow> completion_data option) \<Rightarrow> DeliveryData list \<Rightarrow> PageData list
     \<Rightarrow> DeliveryData list" where
  \<comment> \<open>the complete deliveries first, then the incomplete ones, each completed if possible\<close>
  "merge_cross_page_deliveries edc deliveries pages =
     filter (\<lambda>d. \<not> is_incomplete d) deliveries @
     map (complete_delivery edc pages) (filter is_incomplete deliveries)"

definition fmt_opt :: "string option \<Rightarrow> string" where
  \<comment> \<open>an optional string inside an f-string\<close>
  "fmt_opt v = (case v of None \<Rightarrow> ''None'' | Some s \<Rightarrow> s)"

definition ddt_key :: "DeliveryData \<Rightarrow> string" where
  "ddt_key d = fmt_opt (ddt_series d) @ ''_'' @ fmt_opt (ddt_number d)"

fun dedup_loop ::
  "DeliveryData list \<Rightarrow> DeliveryData list \<Rightarrow> (string \<rightharpoonup> nat) \<Rightarrow> DeliveryData list" where
  \<comment> \<open>\<open>seen_ddts\<close> maps a key to the delivery object kept for it, which is an element of
      \<open>unique_deliveries\<close>: here, to its index in that list\<close>
  "dedup_loop [] unique_deliveries seen_ddts = unique_deliveries"
| "dedup_loop (delivery # rest) unique_deliveries seen_ddts =
     (case seen_ddts (ddt_key delivery) of
        None \<Rightarrow>
          dedup_loop rest (unique_deliveries @ [delivery])
            (seen_ddts(ddt_key delivery \<mapsto> length unique_deliveries))
      | Some i \<Rightarrow>
          dedup_loop rest
            (unique_deliveries[i := (unique_deliveries ! i)
               \<lparr>DeliveryData.products :=
                  DeliveryData.products (unique_deliveries ! i) @ DeliveryData.products delivery\<rparr>])
            seen_ddts)"

definition merged_deliveries ::
  "(DeliveryData \<Rightarrow> string \<Rightarrow> completion_data option) \<Rightarrow> PageData list \<Rightarrow> DeliveryData list" where
  \<comment> \<open>the deliveries collected from all pages (a minimal delivery with all products when
      there is none), after the cross-page completion and before the deduplication\<close>
  "merged_deliveries edc pages =
     (let deliveries = collect_deliveries pages;
          deliveries =
            (if deliveries = []
             then [empty_delivery\<lparr>DeliveryData.products := concat (map PageData.products pages)\<rparr>]
             else deliveries)
      in merge_cross_page_deliveries edc deliveries pages)"

definition compile_delivery_data ::
  "(DeliveryData \<Rightarrow> string \<Rightarrow> completion_data option) \<Rightarrow> PageData list \<Rightarrow> DeliveryData list" where
  "compile_delivery_data edc pages = dedup_loop (merged_deliveries edc pages) [] Map.empty"

fun compile_products :: "PageData list \<Rightarrow> ValidationResult list \<Rightarrow> ProductData list" where
  \<comment> \<open>page \<open>i\<close> is paired with validation result \<open>i\<close> when there is one\<close>
  "compile_products [] vrs = []"
| "compile_products (page # pages) [] = PageData.products page @ compile_products pages []"
| "compile_products (page # pages) (vr # vrs) =
     (case corrected_data vr of
        Some c \<Rightarrow> (if \<not> is_valid vr then corrected_products c else PageData.products page)
      | None \<Rightarrow> PageData.products page)
     @ compile_products pages vrs"

definition compile_raw_text :: "PageData list \<Rightarrow> (nat \<times> string) list" where
  \<comment> \<open>the entry for key \<open>page{n+1}\<close> is written as \<open>(n + 1, text)\<close>\<close>
  "compile_raw_text pages =
     map (\<lambda>page. (PageData.page_number page + 1, take 5000 (PageData.raw_text page))) pages"

fun sum_totals :: "ProductData list \<Rightarrow> decimal \<Rightarrow> exn + decimal" where
  \<comment> \<open>the loop that adds the totals of the products to \<open>calculated_total\<close>\<close>
  "sum_totals [] calculated_total = Inr calculated_total"
| "sum_totals (product # rest) calculated_total =
     (if truthy (total_price product) then
        (case parse_field (total_price product) of
           Inl e \<Rightarrow> Inl e
         | Inr product_total \<Rightarrow>
             if decimal_truthy product_total
             then sum_totals rest (calculated_total + the product_total)
             else sum_totals rest calculated_total)
      else sum_totals rest calculated_total)"

definition perform_final_validations :: "ProcessingConfig \<Rightarrow> ExtractionResult \<Rightarrow> ExtractionResult" where
  "perform_final_validations config result =
     (if \<not> validate_checksums config then result
      else (case sum_totals (ExtractionResult.products result) 0 of
              Inl e \<Rightarrow> result\<lparr>parsing_errors := parsing_errors result @ [ErrorDuringChecksumValidation]\<rparr>
            | Inr calculated_total \<Rightarrow>
                (case bill_data result of
                   None \<Rightarrow> result\<lparr>parsing_errors := parsing_errors result @ [NoTotalAmountFound]\<rparr>
                 | Some bill \<Rightarrow>
                     if \<not> truthy (total_amount bill)
                     then result\<lparr>parsing_errors := parsing_errors result @ [NoTotalAmountFound]\<rparr>
                     else (case parse_field (total_amount bill) of
                             Inl e \<Rightarrow>
                               result\<lparr>parsing_errors :=
                                        parsing_errors result @ [ErrorDuringChecksumValidation]\<rparr>
                           | Inr stated_total \<Rightarrow>
                               if decimal_truthy stated_total then
                                 (let difference = \<bar>the stated_total - calculated_total\<bar>;
                                      tolerance = 1 / 100
                                  in if difference \<le> tolerance
                                     then result\<lparr>validation_checksum_ok := True\<rparr>
                                     else result\<lparr>parsing_errors :=
                                            parsing_errors result @
                                            [ChecksumMismatch (the stated_total) calculated_total difference]\<rparr>)
                               else result\<lparr>parsing_errors :=
                                      parsing_errors result @ [CouldNotParseStatedTotal]\<rparr>))))"

definition extract_footer_information ::
  "(string \<Rightarrow> BillData \<Rightarrow> BillData) \<Rightarrow> BillData \<Rightarrow> PageData list \<Rightarrow> BillData" where
  \<comment> \<open>the last two pages, the last one first; a page without text is skipped;
      \<open>footer_scan\<close> is what the searches in one page's text add to the bill\<close>
  "extract_footer_information footer_scan bill pages =
     (let pages_to_search = (if 2 \<le> length pages then drop (length pages - 2) pages else pages)
      in foldl (\<lambda>b page. if PageData.raw_text page = [] then b
                          else footer_scan (PageData.raw_text page) b)
           bill (rev pages_to_search))"

definition generate_final_message :: "ExtractionResult \<Rightarrow> final_message" where
  "generate_final_message result =
     (if \<not> success result then ParsingFailedWithErrors
      else if parsing_errors result \<noteq> [] then CompletedWithWarnings
      else if \<not> validation_checksum_ok result then CompletedButChecksumFailed
      else (let failed_validations = filter (\<lambda>v. \<not> is_valid v) (validation_results result)
            in if failed_validations \<noteq> []
               then CompletedButPagesFailedValidation (length failed_validations)
               else CompletedSuccessfully))"

definition compile_final_result ::
  "(DeliveryData \<Rightarrow> string \<Rightarrow> completion_data option) \<Rightarrow> (string \<Rightarrow> BillData \<Rightarrow> BillData)
     \<Rightarrow> ProcessingConfig \<Rightarrow> BillData \<Rightarrow> PageData list \<Rightarrow> ValidationResult list
     \<Rightarrow> ExtractionResult" where
  "compile_final_result edc footer_scan config bill pages vrs =
     (let result =
            \<lparr>success = True, bill_data = Some bill,
             delivery_data = compile_delivery_data edc pages,
             products = compile_products pages vrs,
             page_data = pages,
             validation_results = vrs,
             raw_text = compile_raw_text pages,
             validation_checksum_ok = False,
             parsing_errors = [],
             message = None\<rparr>;
          result = perform_final_validations config result;
          result = result\<lparr>bill_data := Some (extract_footer_information footer_scan bill pages)\<rparr>;
          result = result\<lparr>success := (length (parsing_errors result) = 0)\<rparr>
      in result\<lparr>message := Some (generate_final_message result)\<rparr>)"


section \<open>Column mapping (\<open>extractors/table_extractor.py\<close>)\<close>

text \<open>
  A grid is a pandas frame: its column labels and its rows of cells, each row as long as
  the list of labels; the first row is the header.  Cells are the strings that
  \<open>astype(str)\<close> gives.  The column map is a dictionary from role names to a column
  label or \<open>None\<close>: \<open>m k = None\<close> when the key is absent, \<open>m k = Some None\<close> when the key
  is mapped to \<open>None\<close>.
\<close>

datatype py_error = IndexError | TypeError

record dataframe =
  df_columns :: "nat list"
  df_rows :: "string list list"

type_synonym col_map = "string \<rightharpoonup> nat option"

definition py_lower_char :: "char \<Rightarrow> char" where
  \<comment> \<open>\<open>str.lower\<close> on one code point below 256\<close>
  "py_lower_char c =
     (let n = (of_char c :: nat)
      in if (65 \<le> n \<and> n \<le> 90) \<or> (192 \<le> n \<and> n \<le> 222 \<and> n \<noteq> 215)
         then char_of (n + 32) else c)"

definition py_lower :: "string \<Rightarrow> string" where
  "py_lower s = map py_lower_char s"

definition qta_fatt :: string where
  \<comment> \<open>the header phrase for the quantity; its third letter is U+00E0\<close>
  "qta_fatt = ''qt'' @ [CHR 0xE0] @ '' fatt''"

definition map_header :: "col_map \<Rightarrow> nat \<times> string \<Rightarrow> col_map" where
  \<comment> \<open>one round of the loop over the header cells: the first phrase that fits decides\<close>
  "map_header m ch =
     (let col_name_df = fst ch; header_text = snd ch
      in if py_in ''prodotto'' header_text then m(''product_code_raw'' \<mapsto> Some col_name_df)
         else if py_in ''voce dog'' header_text then m(''customs_code'' \<mapsto> Some col_name_df)
         else if header_text = ''um'' then m(''unit_measure'' \<mapsto> Some col_name_df)
         else if py_in qta_fatt header_text then m(''quantity'' \<mapsto> Some col_name_df)
         else if py_in ''prezzo unitario'' header_text then m(''unit_price'' \<mapsto> Some col_name_df)
         else if py_in ''importo'' header_text then m(''line_total'' \<mapsto> Some col_name_df)
         else m)"

definition header_mapping :: "dataframe \<Rightarrow> col_map" where
  \<comment> \<open>the map after the loop over the header cells, before any fallback\<close>
  "header_mapping df =
     foldl map_header Map.empty
       (zip (df_columns df) (map (\<lambda>cell. strip (py_lower cell)) (hd (df_rows df))))"

definition setdefault :: "string \<Rightarrow> nat option \<Rightarrow> col_map \<Rightarrow> col_map" where
  "setdefault k v m = (case m k of None \<Rightarrow> m(k \<mapsto> v) | Some old \<Rightarrow> m)"

definition col_at :: "nat list \<Rightarrow> nat \<Rightarrow> nat option" where
  \<comment> \<open>\<open>cols[i] if len(cols) > i else None\<close>\<close>
  "col_at cols i = (if i < length cols then Some (cols ! i) else None)"

definition required_cols :: "string list" where
  "required_cols = [''product_code_raw'', ''quantity'', ''unit_price'', ''line_total'']"

definition positional_fallback :: "nat list \<Rightarrow> col_map \<Rightarrow> col_map" where
  "positional_fallback cols m =
     setdefault ''line_total'' (col_at cols 6)
       (setdefault ''unit_price'' (col_at cols 5)
         (setdefault ''quantity'' (col_at cols 4)
           (setdefault ''unit_measure'' (col_at cols 3)
             (setdefault ''customs_code'' (col_at cols 2)
               (setdefault ''product_code_raw'' (Some (cols ! 0)) m)))))"

definition map_table_columns :: "dataframe \<Rightarrow> py_error + col_map" where
  \<comment> \<open>\<open>df.iloc[0]\<close> needs a row and \<open>cols[0]\<close> a column: the source raises without\<close>
  "map_table_columns df =
     (if df_rows df = [] then Inl IndexError
      else (let m = header_mapping df
            in if \<not> list_all (\<lambda>k. m k \<noteq> None) required_cols then
                 (if df_columns df = [] then Inl IndexError
                  else Inr (positional_fallback (df_columns df) m))
               else Inr m))"

definition validate_required_columns :: "col_map \<Rightarrow> bool" where
  \<comment> \<open>no required role is absent or mapped to \<open>None\<close>\<close>
  "validate_required_columns m =
     (filter (\<lambda>k. m k = None \<or> m k = Some None) required_cols = [])"

text \<open>
  The two row extractors are parameters: \<open>structured\<close> reads the mapped columns,
  \<open>flexible\<close> searches each row for a product code and numbers without using the map.
\<close>

definition extract_products_from_table ::
  "(dataframe \<Rightarrow> col_map \<Rightarrow> ProductData list) \<Rightarrow> (dataframe \<Rightarrow> col_map \<Rightarrow> ProductData list)
     \<Rightarrow> dataframe \<Rightarrow> col_map \<Rightarrow> ProductData list" where
  "extract_products_from_table structured flexible df m =
     (if length (df_rows df) < 2 then []
      else if validate_required_columns m then structured df m
      else flexible df m)"


section \<open>Product and delivery association (\<open>extractors/table_extractor.py\<close>)\<close>

text \<open>
  The position of a delivery is searched with a pattern built from its series and
  number.  Both are tokens of letters and digits when they come from the delivery
  patterns of the page scan, so they stand for themselves in the pattern, and the
  searches are modelled for such literal tokens: the series, blanks, the number; or
  else the number between word boundaries.
\<close>

fun spaces_then :: "string \<Rightarrow> string \<Rightarrow> bool" where
  \<comment> \<open>\<open>\s+\<close> followed by the literal \<open>q\<close>, at the head of the text\<close>
  "spaces_then q [] = False"
| "spaces_then q (c # cs) = (py_isspace c \<and> (startswith cs q \<or> spaces_then q cs))"

definition series_number_at :: "string \<Rightarrow> string \<Rightarrow> string \<Rightarrow> bool" where
  "series_number_at series number t =
     (startswith t series \<and> spaces_then number (drop (length series) t))"

definition is_word_char :: "char option \<Rightarrow> bool" where
  \<comment> \<open>\<open>\w\<close>; there is no character before the start or after the end of the text\<close>
  "is_word_char c = (case c of None \<Rightarrow> False | Some x \<Rightarrow> py_isalnum x \<or> x = CHR ''_'')"

definition head_opt :: "string \<Rightarrow> char option" where
  "head_opt t = (case t of [] \<Rightarrow> None | c # cs \<Rightarrow> Some c)"

definition word_match_at :: "string \<Rightarrow> char option \<Rightarrow> string \<Rightarrow> bool" where
  \<comment> \<open>\<open>\bq\b\<close> at the head of the text; \<open>prev\<close> is the character before it\<close>
  "word_match_at q prev t =
     (startswith t q \<and>
      is_word_char prev \<noteq> is_word_char (head_opt t) \<and>
      is_word_char (if q = [] then prev else Some (last q)) \<noteq>
        is_word_char (head_opt (drop (length q) t)))"

fun word_search :: "string \<Rightarrow> char option \<Rightarrow> string \<Rightarrow> nat \<Rightarrow> nat option" where
  \<comment> \<open>the first position where \<open>q\<close> starts and both of its ends are word boundaries\<close>
  "word_search q prev [] k = (if word_match_at q prev [] then Some k else None)"
| "word_search q prev (c # cs) k =
     (if word_match_at q prev (c # cs) then Some k else word_search q (Some c) cs (Suc k))"

definition find_delivery_position :: "string \<Rightarrow> DeliveryData \<Rightarrow> nat" where
  "find_delivery_position page_text delivery =
     (case search_from (series_number_at (fmt_opt (ddt_series delivery)) (fmt_opt (ddt_number delivery)))
             page_text 0 of
        Some k \<Rightarrow> k
      | None \<Rightarrow>
          (case word_search (fmt_opt (ddt_number delivery)) None page_text 0 of
             Some k \<Rightarrow> k
           | None \<Rightarrow> 0))"

definition find_delivery_positions_in_text :: "string \<Rightarrow> DeliveryData list \<Rightarrow> nat list" where
  "find_delivery_positions_in_text page_text deliveries =
     map (find_delivery_position page_text) deliveries"

definition find_product_position :: "string \<Rightarrow> string \<Rightarrow> nat" where
  \<comment> \<open>where the code first occurs, or else the length of the text\<close>
  "find_product_position page_text code =
     (case py_find code page_text of Some k \<Rightarrow> k | None \<Rightarrow> length page_text)"

fun find_product_positions_in_text :: "string \<Rightarrow> ProductData list \<Rightarrow> py_error + nat list" where
  \<comment> \<open>\<open>re.escape\<close> raises a \<open>TypeError\<close> on a product whose code is \<open>None\<close>\<close>
  "find_product_positions_in_text page_text [] = Inr []"
| "find_product_positions_in_text page_text (product # rest) =
     (case product_code product of
        None \<Rightarrow> Inl TypeError
      | Some code \<Rightarrow>
          (case find_product_positions_in_text page_text rest of
             Inl e \<Rightarrow> Inl e
           | Inr positions \<Rightarrow> Inr (find_product_position page_text code # positions)))"

fun closest_loop :: "nat \<Rightarrow> nat list \<Rightarrow> nat \<Rightarrow> (nat \<times> nat) option \<Rightarrow> (nat \<times> nat) option" where
  \<comment> \<open>the loop over \<open>enumerate(delivery_positions)\<close> from index \<open>i\<close>; the state is the best
      distance with the index of the best delivery, \<open>None\<close> while the distance is infinite\<close>
  "closest_loop product_position [] i best = best"
| "closest_loop product_position (delivery_pos # rest) i best =
     (if delivery_pos \<le> product_position then
        (let distance = product_position - delivery_pos
         in if (case best of None \<Rightarrow> True | Some (best_distance, b) \<Rightarrow> distance < best_distance)
            then closest_loop product_position rest (i + 1) (Some (distance, i))
            else closest_loop product_position rest (i + 1) best)
      else closest_loop product_position rest (i + 1) best)"

definition find_closest_preceding_delivery :: "nat \<Rightarrow> nat list \<Rightarrow> nat option" where
  \<comment> \<open>the source returns the delivery object \<open>deliveries[i]\<close>; the model returns \<open>i\<close>\<close>
  "find_closest_preceding_delivery product_position delivery_positions =
     map_option snd (closest_loop product_position delivery_positions 0 None)"

definition append_product :: "ProductData \<Rightarrow> DeliveryData \<Rightarrow> DeliveryData" where
  "append_product product d = d\<lparr>DeliveryData.products := DeliveryData.products d @ [product]\<rparr>"

definition target_index :: "nat list \<Rightarrow> nat \<Rightarrow> nat" where
  \<comment> \<open>the delivery a product at this position goes to: the closest preceding one, or else
      the first delivery of the page\<close>
  "target_index delivery_positions product_pos =
     (case find_closest_preceding_delivery product_pos delivery_positions of
        Some i \<Rightarrow> i
      | None \<Rightarrow> 0)"

definition associate_one :: "nat list \<Rightarrow> DeliveryData list \<Rightarrow> ProductData \<times> nat \<Rightarrow> DeliveryData list" where
  "associate_one delivery_positions deliveries pp =
     (let i = target_index delivery_positions (snd pp)
      in deliveries[i := append_product (fst pp) (deliveries ! i)])"

definition associate_products_with_deliveries :: "PageData \<Rightarrow> py_error + PageData" where
  "associate_products_with_deliveries page =
     (if all_deliveries page = [] \<or> PageData.products page = [] then Inr page
      else (let cleared = map (\<lambda>d. d\<lparr>DeliveryData.products := []\<rparr>) (all_deliveries page)
            in if length cleared = 1
               then Inr (page\<lparr>all_deliveries :=
                           [(cleared ! 0)\<lparr>DeliveryData.products := PageData.products page\<rparr>]\<rparr>)
               else (let delivery_positions =
                           find_delivery_positions_in_text (PageData.raw_text page) cleared
                     in case find_product_positions_in_text (PageData.raw_text page)
                               (PageData.products page) of
                          Inl e \<Rightarrow> Inl e
                        | Inr product_positions \<Rightarrow>
                            Inr (page\<lparr>all_deliveries :=
                                   foldl (associate_one delivery_positions) cleared
                                     (zip (PageData.products page) product_positions)\<rparr>))))"


section \<open>Row reconciliation (\<open>extractors/coordinate_table_extractor.py\<close>)\<close>

text \<open>
  A raw row is the dictionary built in \<open>extract_table_data\<close>: the row index, the raw
  cells, and one string per mapped column name.
\<close>

record raw_row =
  row_index :: nat
  raw_data :: "string option list"
  columns :: "string \<rightharpoonup> string"

definition has_product_code :: "raw_row \<Rightarrow> bool" where
  "has_product_code r =
     (strip (get_or_empty (columns r ''product_code'')) \<noteq> [] \<and>
      py_in ''MMA'' (get_or_empty (columns r ''product_code'')))"

definition merge_field :: "string \<Rightarrow> raw_row \<Rightarrow> raw_row \<Rightarrow> raw_row" where
  \<comment> \<open>one of the five conditional assignments\<close>
  "merge_field k prev_row current_row =
     (if \<not> truthy (columns current_row k) \<and> truthy (columns prev_row k)
      then current_row\<lparr>columns := (columns current_row)(k := columns prev_row k)\<rparr>
      else current_row)"

definition merge_from_prev :: "raw_row \<Rightarrow> raw_row \<Rightarrow> raw_row" where
  "merge_from_prev current_row prev_row =
     merge_field ''voce_dog'' prev_row
       (merge_field ''unit_of_measure'' prev_row
         (merge_field ''total_price'' prev_row
           (merge_field ''unit_price'' prev_row
             (merge_field ''quantity'' prev_row current_row))))"

definition has_meaningful_data :: "raw_row \<Rightarrow> bool" where
  \<comment> \<open>some of quantity, unit price and total is not blank\<close>
  "has_meaningful_data r =
     list_ex (\<lambda>field. strip (get_or_empty (columns r field)) \<noteq> [])
       [''quantity'', ''unit_price'', ''total_price'']"

function merge_loop :: "raw_row list \<Rightarrow> nat \<Rightarrow> raw_row list \<Rightarrow> raw_row list" where
  "merge_loop raw_rows i merged_rows =
     (if i < length raw_rows then
        (let current_row = raw_rows ! i in
         if has_product_code current_row then
           (let current_row' = (if i > 0 then merge_from_prev current_row (raw_rows ! (i - 1))
                                else current_row)
            in merge_loop raw_rows (i + 1) (merged_rows @ [current_row']))
         else if i + 1 < length raw_rows then
           (if has_product_code (raw_rows ! (i + 1))
            then merge_loop raw_rows (i + 1) merged_rows
            else merge_loop raw_rows (i + 1) (merged_rows @ [current_row]))
         else
           (if has_meaningful_data current_row
            then merge_loop raw_rows (i + 1) (merged_rows @ [current_row])
            else merge_loop raw_rows (i + 1) merged_rows))
      else merged_rows)"
  by pat_completeness auto
termination
  by (relation "measure (\<lambda>(raw_rows, i, merged_rows). length raw_rows - i)") auto

declare merge_loop.simps [simp del]

definition merge_paired_rows :: "raw_row list \<Rightarrow> raw_row list" where
  "merge_paired_rows raw_rows = merge_loop raw_rows 0 []"

text \<open>
  What the row at index \<open>i\<close> contributes to the output: the reading of the
  reconciliation rule, row by row, that the loop is compared with.
\<close>

definition emitted_for :: "raw_row list \<Rightarrow> nat \<Rightarrow> raw_row list" where
  "emitted_for raw_rows i =
     (if has_product_code (raw_rows ! i) then
        [if i > 0 then merge_from_prev (raw_rows ! i) (raw_rows ! (i - 1)) else raw_rows ! i]
      else if i + 1 < length raw_rows then
        (if has_product_code (raw_rows ! (i + 1)) then [] else [raw_rows ! i])
      else
        (if has_meaningful_data (raw_rows ! i) then [raw_rows ! i] else []))"


section \<open>Boundary location (\<open>extractors/coordinate_table_extractor.py\<close>)\<close>













section \<open>Reference definitions and example inputs\<close>

subsection \<open>The confidence score as a formula\<close>





subsection \<open>Example inputs\<close>

definition example_product :: "string \<Rightarrow> string \<Rightarrow> string \<Rightarrow> string \<Rightarrow> ProductData" where
  "example_product code q u t =
     \<lparr>product_code = Some code, description = None, customs_code = None, unit_of_measure = None,
      quantity = Some q, unit_price = Some u, total_price = Some t\<rparr>"

definition example_page :: PageData where
  \<comment> \<open>three consistent items; the code of the third one is not in the text\<close>
  "example_page =
     \<lparr>PageData.page_number = 0, raw_text = ''MMA1 MMA2'',
      products = [example_product ''MMA1'' ''2'' ''3'' ''6'', example_product ''MMA2'' ''2'' ''3'' ''6'',
                  example_product ''MMA3'' ''2'' ''3'' ''6''],
      delivery_info = None, all_deliveries = [], errors = []\<rparr>"

definition example_config :: ProcessingConfig where
  "example_config =
     \<lparr>enable_ocr_validation = True, ocr_confidence_threshold = 8 / 10,
      max_pages_to_process = None, validate_checksums = True\<rparr>"

definition keep_products :: "ProductData list \<Rightarrow> validation_error list \<Rightarrow> corrections" where
  \<comment> \<open>a correction generator for the examples: it returns the products as they are\<close>
  "keep_products ps es = \<lparr>corrected_products = ps, correction_notes = []\<rparr>"


subsection \<open>The sum of the line totals\<close>

definition line_total_value :: "ProductData \<Rightarrow> decimal" where
  \<comment> \<open>the total of an item as a number; an item without a readable total counts 0\<close>
  "line_total_value p = (case parse_field (total_price p) of Inr (Some d) \<Rightarrow> d | _ \<Rightarrow> 0)"

definition sum_of_line_totals :: "ProductData list \<Rightarrow> decimal" where
  "sum_of_line_totals prods = sum_list (map line_total_value prods)"

subsection \<open>Example inputs for the compilation\<close>

definition example_bill :: "string \<Rightarrow> BillData" where
  \<comment> \<open>a bill of which only the declared grand total is known\<close>
  "example_bill amount =
     \<lparr>bill_number = None, bill_date = None, currency = None, customer_code = None,
      customer_name = None, customer_address = None, customer_vat_id = None,
      gross_weight_kg = None, net_weight_kg = None, package_count = None,
      shipping_term = None, total_amount = Some amount\<rparr>"

definition checksum_products :: "ProductData list" where
  \<comment> \<open>five items with the totals 126.911, 87.842, 16.238, 16.616 and 2.907\<close>
  "checksum_products =
     map (\<lambda>t. example_product ''MMA1'' ''1'' t t)
       [''126.911'', ''87.842'', ''16.238'', ''16.616'', ''2.907'']"

definition checksum_page :: "string list \<Rightarrow> PageData" where
  \<comment> \<open>one page with the five items and the given page-local errors\<close>
  "checksum_page errs =
     \<lparr>PageData.page_number = 0, raw_text = ''MMA1'', products = checksum_products,
      delivery_info = None, all_deliveries = [], errors = errs\<rparr>"

definition no_completion :: "DeliveryData \<Rightarrow> string \<Rightarrow> completion_data option" where
  "no_completion d t = None"

definition no_footer :: "string \<Rightarrow> BillData \<Rightarrow> BillData" where
  "no_footer t b = b"


subsection \<open>Example rows for the reconciliation\<close>

definition merged_keys :: "string list" where
  \<comment> \<open>the columns that a primary row can take from the row before it\<close>
  "merged_keys = [''quantity'', ''unit_price'', ''total_price'', ''unit_of_measure'', ''voce_dog'']"

definition blank_row :: "nat \<Rightarrow> raw_row" where
  \<comment> \<open>a row whose cells are all empty\<close>
  "blank_row n =
     \<lparr>row_index = n, raw_data = [],
      columns = [''product_code'' \<mapsto> [], ''quantity'' \<mapsto> [], ''unit_price'' \<mapsto> [], ''total_price'' \<mapsto> []]\<rparr>"

definition example_row :: "nat \<Rightarrow> string \<Rightarrow> string \<Rightarrow> raw_row" where
  "example_row n code qty =
     \<lparr>row_index = n, raw_data = [],
      columns = [''product_code'' \<mapsto> code, ''quantity'' \<mapsto> qty, ''unit_price'' \<mapsto> [], ''total_price'' \<mapsto> []]\<rparr>"


subsection \<open>Reading of the delivery deduplication\<close>

text \<open>
  The reading of the deduplication that the loop is compared with: the pair that
  identifies a delivery, the products of all deliveries of a list that have a given
  key, the first delivery of each key in list order, and a delivery without its
  products.  \<open>seen_inv\<close> is the invariant of the loop: the keys of the kept deliveries
  are distinct, and \<open>seen_ddts\<close> maps each of them to the place of its delivery.
\<close>

definition ddt_pair :: "DeliveryData \<Rightarrow> string option \<times> string option" where
  "ddt_pair d = (ddt_series d, ddt_number d)"

definition products_for_key :: "string \<Rightarrow> DeliveryData list \<Rightarrow> ProductData list" where
  "products_for_key k ds = concat (map DeliveryData.products (filter (\<lambda>d. ddt_key d = k) ds))"

fun first_occurrences :: "DeliveryData list \<Rightarrow> string list \<Rightarrow> DeliveryData list" where
  "first_occurrences [] ks = []"
| "first_occurrences (d # ds) ks =
     (if ddt_key d \<in> set ks then first_occurrences ds ks
      else d # first_occurrences ds (ddt_key d # ks))"

definition without_products :: "DeliveryData \<Rightarrow> DeliveryData" where
  "without_products d = d\<lparr>DeliveryData.products := []\<rparr>"

definition seen_inv :: "DeliveryData list \<Rightarrow> (string \<rightharpoonup> nat) \<Rightarrow> bool" where
  "seen_inv unique seen =
     (distinct (map ddt_key unique) \<and>
      (\<forall>k i. seen k = Some i \<longleftrightarrow> (i < length unique \<and> ddt_key (unique ! i) = k)))"

definition example_delivery :: "string \<Rightarrow> string \<Rightarrow> ProductData list \<Rightarrow> DeliveryData" where
  "example_delivery series number ps =
     \<lparr>ddt_series = Some series, ddt_number = Some number, ddt_date = None, ddt_reason = None,
      model_number = Some ''MMM25'', model_name = None, order_series = None, order_number = None,
      product_name = Some ''TESSUTO'', product_properties = None, products = ps\<rparr>"

definition delivery_page :: "nat \<Rightarrow> string \<Rightarrow> DeliveryData list \<Rightarrow> ProductData list \<Rightarrow> PageData" where
  "delivery_page n txt ds ps =
     \<lparr>PageData.page_number = n, raw_text = txt, products = ps,
      delivery_info = (case ds of [] \<Rightarrow> None | d # rest \<Rightarrow> Some d), all_deliveries = ds, errors = []\<rparr>"

definition example_pages :: "PageData list" where
  "example_pages =
     [delivery_page 0 ''page one''
        [example_delivery ''MS5LH0002'' ''3635'' [example_product ''MMA1'' ''2'' ''3'' ''6'']]
        [example_product ''MMA1'' ''2'' ''3'' ''6''],
      delivery_page 1 ''page two''
        [example_delivery ''MS5LH0002'' ''3635'' [example_product ''MMA2'' ''2'' ''3'' ''6''],
         example_delivery ''MS5LH0002'' ''3636'' [example_product ''MMA3'' ''2'' ''3'' ''6'']]
        [example_product ''MMA2'' ''2'' ''3'' ''6'', example_product ''MMA3'' ''2'' ''3'' ''6'']]"


subsection \<open>Reading of the association\<close>

text \<open>
  Names for the statement of the association: the positions of the deliveries of a
  page, the position of a product, and the index of the delivery it is assigned to.
  \<open>closest_step\<close> is one round of the loop that looks for the closest preceding
  delivery, and \<open>closest_ok\<close> says what its result is on a list of positions.
\<close>

definition delivery_positions :: "PageData \<Rightarrow> nat list" where
  "delivery_positions page =
     find_delivery_positions_in_text (PageData.raw_text page) (all_deliveries page)"

definition product_position :: "PageData \<Rightarrow> ProductData \<Rightarrow> nat" where
  "product_position page p = find_product_position (PageData.raw_text page) (the (product_code p))"

definition assigned_delivery :: "PageData \<Rightarrow> ProductData \<Rightarrow> nat" where
  "assigned_delivery page p = target_index (delivery_positions page) (product_position page p)"

definition assoc_page :: PageData where
  "assoc_page =
     delivery_page 0 ''MS5LH0002 3635 MMA1 MS5LH0002 3636 MMA2''
       [example_delivery ''MS5LH0002'' ''3635'' [], example_delivery ''MS5LH0002'' ''3636'' []]
       [example_product ''MMA1'' ''2'' ''3'' ''6'', example_product ''MMA2'' ''2'' ''3'' ''6'',
        example_product ''MMA9'' ''2'' ''3'' ''6'']"

definition closest_step :: "nat \<Rightarrow> (nat \<times> nat) option \<Rightarrow> nat \<Rightarrow> nat \<Rightarrow> (nat \<times> nat) option" where
  "closest_step pp best x n =
     (if x \<le> pp \<and> (case best of None \<Rightarrow> True | Some (bd, b) \<Rightarrow> pp - x < bd)
      then Some (pp - x, n) else best)"

definition closest_ok :: "nat \<Rightarrow> nat list \<Rightarrow> (nat \<times> nat) option \<Rightarrow> bool" where
  "closest_ok pp xs res =
     (case res of
        None \<Rightarrow> (\<forall>k < length xs. pp < xs ! k)
      | Some (d, i) \<Rightarrow>
          i < length xs \<and> xs ! i \<le> pp \<and> d = pp - xs ! i \<and>
          (\<forall>j < length xs. xs ! j \<le> pp \<longrightarrow> xs ! j \<le> xs ! i) \<and>
          (\<forall>j < i. xs ! j \<le> pp \<longrightarrow> xs ! j < xs ! i))"


subsection \<open>Example pages for the boundary location\<close>







subsection \<open>Example grids for the column mapping\<close>

text \<open>
  The fixed column index of each role in the positional fallback; two example grids,
  one with seven columns whose header names the product column in its second cell and
  one with two columns and no known header; and two row extractors that only say which
  of them ran.
\<close>

definition fallback_index :: "string \<Rightarrow> nat option" where
  "fallback_index k =
     (if k = ''product_code_raw'' then Some 0
      else if k = ''customs_code'' then Some 2
      else if k = ''unit_measure'' then Some 3
      else if k = ''quantity'' then Some 4
      else if k = ''unit_price'' then Some 5
      else if k = ''line_total'' then Some 6
      else None)"

definition shifted_header_grid :: dataframe where
  "shifted_header_grid =
     \<lparr>df_columns = [0, 1, 2, 3, 4, 5, 6],
      df_rows = [['''', ''Prodotto'', '''', '''', '''', '''', ''''],
                 ['''', ''MMA25.1.2'', '''', ''MT'', ''2'', ''3'', ''6'']]\<rparr>"

definition narrow_grid :: dataframe where
  "narrow_grid = \<lparr>df_columns = [0, 1], df_rows = [[''a'', ''b''], [''MMA25.1.2'', ''6'']]\<rparr>"

definition structured_marker :: "dataframe \<Rightarrow> col_map \<Rightarrow> ProductData list" where
  "structured_marker df m = [example_product ''structured'' ''1'' ''1'' ''1'']"

definition flexible_marker :: "dataframe \<Rightarrow> col_map \<Rightarrow> ProductData list" where
  "flexible_marker df m = [example_product ''flexible'' ''1'' ''1'' ''1'']"


section \<open>Properties\<close>

subsection \<open>Evaluation of the string and decimal functions\<close>

lemmas string_eval = strip_def lstrip_def rstrip_def py_isspace_def startswith_def

lemmas decimal_eval = Decimal_def take_sign_def is_digit_def parse_exponent_def digits_value_def
  scale10_def standardize_def replace_char_def remove_char_def parse_italian_decimal_str_def
  parse_italian_decimal_def parse_field_def




lemma parse_str_nonempty:
  "parse_italian_decimal_str s = Inr (Some d) \<Longrightarrow> s \<noteq> []"
  by (auto simp: parse_italian_decimal_str_def strip_def lstrip_def rstrip_def)

lemma parse_field_truthy: "parse_field v = Inr (Some d) \<Longrightarrow> truthy v"
  by (cases v) (auto simp: parse_field_def parse_italian_decimal_def truthy_def dest: parse_str_nonempty)

lemma parse_never_raises_str: "\<exists>r. parse_italian_decimal_str s = Inr r"
  by (auto simp: parse_italian_decimal_str_def Let_def split: sum.splits exn.splits option.splits)

lemma parse_field_Inr: "\<exists>r. parse_field v = Inr r"
  using parse_never_raises_str
  by (cases v) (auto simp: parse_field_def parse_italian_decimal_def)


subsection \<open>Localized decimal parsing\<close>

lemma split_on_no_sep: "c \<notin> set s \<Longrightarrow> split_on c s = [s]"
  by (induction s) auto















lemma parse_abc: "parse_italian_decimal (PyStr ''abc'') = Inr None"
  by (simp add: string_eval decimal_eval numeric_part_at_def)




subsection \<open>Consistency validation\<close>








lemma round_half_even_int: "round_half_even (of_int n) = n"
  by (simp add: round_half_even_def Let_def)














text \<open>
  C10: with validation disabled the result is valid, has confidence 0.8, no errors and no
  corrected data, whatever the products and the text of the page are.
\<close>

theorem validation_disabled_result:
  assumes "\<not> enable_ocr_validation config"
  shows "validate_page_data gen config page =
           \<lparr>page_number = PageData.page_number page, is_valid = True, confidence_score = 8 / 10,
            validation_errors = [], corrected_data = None\<rparr>"
  using assms by (simp add: validate_page_data_def)

theorem validation_disabled_result_witness:
  "\<not> enable_ocr_validation (example_config\<lparr>enable_ocr_validation := False\<rparr>) \<and>
   validate_page_data keep_products (example_config\<lparr>enable_ocr_validation := False\<rparr>) example_page =
     \<lparr>page_number = 0, is_valid = True, confidence_score = 8 / 10,
      validation_errors = [], corrected_data = None\<rparr>"
  using validation_disabled_result[of "example_config\<lparr>enable_ocr_validation := False\<rparr>"
      keep_products example_page]
  by (simp add: example_page_def)


subsection \<open>Document checksum and success flag\<close>

lemma sum_totals_eq: "sum_totals prods acc = Inr (acc + sum_of_line_totals prods)"
proof (induction prods arbitrary: acc)
  case Nil
  then show ?case by (simp add: sum_of_line_totals_def)
next
  case (Cons p ps)
  obtain r where r: "parse_field (total_price p) = Inr r" using parse_field_Inr by blast
  have nt: "\<not> truthy (total_price p) \<Longrightarrow> r = None"
    using r parse_field_truthy by (cases r) auto
  show ?case
    using nt by (cases r) (auto simp: Cons.IH r sum_of_line_totals_def line_total_value_def decimal_truthy_def)
qed

lemma perform_final_validations_checked:
  assumes "validate_checksums config" and "bill_data r = Some bill"
    and "parse_field (total_amount bill) = Inr (Some stated)" and "stated \<noteq> 0"
  shows "perform_final_validations config r =
     (if \<bar>stated - sum_of_line_totals (ExtractionResult.products r)\<bar> \<le> 1 / 100
      then r\<lparr>validation_checksum_ok := True\<rparr>
      else r\<lparr>parsing_errors := parsing_errors r @
             [ChecksumMismatch stated (sum_of_line_totals (ExtractionResult.products r))
                \<bar>stated - sum_of_line_totals (ExtractionResult.products r)\<bar>]\<rparr>)"
proof -
  have t: "truthy (total_amount bill)" using assms(3) by (rule parse_field_truthy)
  show ?thesis
    using assms t
    by (simp add: perform_final_validations_def sum_totals_eq decimal_truthy_def Let_def)
qed


lemma compile_success_iff:
  "success (compile_final_result edc fs config bill pages vrs) \<longleftrightarrow>
   parsing_errors (compile_final_result edc fs config bill pages vrs) = []"
  by (simp add: compile_final_result_def Let_def)

lemma compile_checked:
  assumes "validate_checksums config"
    and "parse_field (total_amount bill) = Inr (Some stated)" and "stated \<noteq> 0"
  shows "validation_checksum_ok (compile_final_result edc fs config bill pages vrs) =
           (\<bar>stated - sum_of_line_totals (compile_products pages vrs)\<bar> \<le> 1 / 100)"
    and "parsing_errors (compile_final_result edc fs config bill pages vrs) =
           (if \<bar>stated - sum_of_line_totals (compile_products pages vrs)\<bar> \<le> 1 / 100 then []
            else [ChecksumMismatch stated (sum_of_line_totals (compile_products pages vrs))
                    \<bar>stated - sum_of_line_totals (compile_products pages vrs)\<bar>])"
  using assms
  by (simp_all add: compile_final_result_def Let_def perform_final_validations_checked[where bill=bill and stated=stated])


lemma parse_totals:
  "parse_field (Some ''126.911'') = Inr (Some (126911 / 1000))"
  "parse_field (Some ''87.842'') = Inr (Some (87842 / 1000))"
  "parse_field (Some ''16.238'') = Inr (Some (16238 / 1000))"
  "parse_field (Some ''16.616'') = Inr (Some (16616 / 1000))"
  "parse_field (Some ''2.907'') = Inr (Some (2907 / 1000))"
  "parse_field (Some ''250.51'') = Inr (Some (25051 / 100))"
  "parse_field (Some ''260.00'') = Inr (Some 260)"
  by (simp_all add: string_eval decimal_eval)

lemma checksum_products_sum: "sum_of_line_totals checksum_products = 250514 / 1000"
  by (simp add: sum_of_line_totals_def checksum_products_def line_total_value_def example_product_def
      parse_totals)

lemma checksum_page_products:
  "compile_products [checksum_page errs] [] = checksum_products"
  "PageData.products (checksum_page errs) = checksum_products"
  by (simp_all add: checksum_page_def)


lemma checksum_on: "validate_checksums example_config"
  by (simp add: example_config_def)




text \<open>
  C4 on the code: a checksum mismatch alone, on pages without any error, makes the
  success flag false; and a page-local error alone, with a matching checksum, leaves it
  true.  The flag is computed from the list that receives the checksum messages and
  never the errors of the pages.
\<close>

theorem success_follows_checksum_not_page_errors:
  "PageData.errors (checksum_page []) = [] \<and>
   \<not> success
     (compile_final_result no_completion no_footer example_config (example_bill ''260.00'')
        [checksum_page []] []) \<and>
   PageData.errors (checksum_page [''Error processing page 1'']) \<noteq> [] \<and>
   success
     (compile_final_result no_completion no_footer example_config (example_bill ''250.51'')
        [checksum_page [''Error processing page 1'']] [])"
proof -
  have p1: "parse_field (total_amount (example_bill ''250.51'')) = Inr (Some (25051 / 100))"
    by (simp add: example_bill_def parse_totals)
  have p2: "parse_field (total_amount (example_bill ''260.00'')) = Inr (Some 260)"
    by (simp add: example_bill_def parse_totals)
  show ?thesis
    using compile_checked(2)[OF checksum_on p1, of no_completion no_footer
        "[checksum_page [''Error processing page 1'']]" "[]"]
      compile_checked(2)[OF checksum_on p2, of no_completion no_footer "[checksum_page []]" "[]"]
    by (simp add: compile_success_iff checksum_page_products checksum_products_sum)
       (simp add: checksum_page_def)
qed


subsection \<open>Row reconciliation\<close>

lemma merge_loop_emitted:
  "merge_loop raw_rows i acc = acc @ concat (map (emitted_for raw_rows) [i..<length raw_rows])"
proof (induction raw_rows i acc rule: merge_loop.induct)
  case (1 raw_rows i merged_rows)
  show ?case
  proof (cases "i < length raw_rows")
    case False
    then show ?thesis by (simp add: merge_loop.simps[of raw_rows i])
  next
    case True
    then have up: "[i..<length raw_rows] = i # [i + 1..<length raw_rows]"
      by (simp add: upt_conv_Cons)
    show ?thesis
      using True 1
      by (subst merge_loop.simps) (simp add: up emitted_for_def[of raw_rows i] Let_def)
  qed
qed

lemma merge_paired_rows_emitted:
  "merge_paired_rows raw_rows = concat (map (emitted_for raw_rows) [0..<length raw_rows])"
  unfolding merge_paired_rows_def merge_loop_emitted by simp

lemma merge_field_columns:
  "columns (merge_field k prev cur) k' =
     (if k' = k \<and> \<not> truthy (columns cur k) \<and> truthy (columns prev k) then columns prev k
      else columns cur k')"
  by (simp add: merge_field_def)

lemma merge_from_prev_columns:
  "columns (merge_from_prev cur prev) k =
     (if k \<in> set merged_keys \<and> \<not> truthy (columns cur k) \<and> truthy (columns prev k)
      then columns prev k else columns cur k)"
  by (auto simp: merge_from_prev_def merge_field_columns merged_keys_def)

lemma merge_from_prev_rest:
  "row_index (merge_from_prev cur prev) = row_index cur"
  "raw_data (merge_from_prev cur prev) = raw_data cur"
  by (simp_all add: merge_from_prev_def merge_field_def)

lemma blank_facts:
  "\<not> has_product_code (blank_row n)" "\<not> has_meaningful_data (blank_row n)"
  by (simp_all add: has_product_code_def has_meaningful_data_def blank_row_def get_or_empty_def string_eval)

lemma blank_merge: "merge_paired_rows [blank_row a, blank_row b] = [blank_row a]"
  by (simp add: merge_paired_rows_emitted emitted_for_def blank_facts upt_rec)

lemma example_row_facts:
  "\<not> has_product_code (example_row n [] q)"
  "has_product_code (example_row n ''MMA25.1.2'' q)"
  by (simp_all add: has_product_code_def example_row_def get_or_empty_def string_eval)

lemma emitted_primary:
  assumes "has_product_code (raw_rows ! i)" "0 < i"
  shows "emitted_for raw_rows i = [merge_from_prev (raw_rows ! i) (raw_rows ! (i - 1))]"
  using assms by (simp add: emitted_for_def)

lemma emitted_supplementary:
  assumes "\<not> has_product_code (raw_rows ! i)"
  shows "i + 1 < length raw_rows \<Longrightarrow> has_product_code (raw_rows ! (i + 1)) \<Longrightarrow> emitted_for raw_rows i = []"
    and "i + 1 < length raw_rows \<Longrightarrow> \<not> has_product_code (raw_rows ! (i + 1)) \<Longrightarrow>
           emitted_for raw_rows i = [raw_rows ! i]"
    and "i + 1 = length raw_rows \<Longrightarrow>
           emitted_for raw_rows i = (if has_meaningful_data (raw_rows ! i) then [raw_rows ! i] else [])"
  using assms by (simp_all add: emitted_for_def)

text \<open>
  C1, as stated, fails: of two rows whose cells are all empty the first is emitted, although
  it is a supplementary row that no primary row follows and it carries no numeric
  value.
\<close>

theorem blank_supplementary_row_emitted:
  "\<not> has_product_code (blank_row 1) \<and> \<not> has_product_code (blank_row 2) \<and>
   \<not> has_meaningful_data (blank_row 1) \<and>
   merge_paired_rows [blank_row 1, blank_row 2] = [blank_row 1]"
  by (simp add: blank_facts blank_merge)

text \<open>
  C1, amended: the output is the concatenation, in row order, of what each row
  contributes.  A primary row after the first row contributes one item, which has, for
  each of quantity, unit price, total, unit of measure and customs code that is empty
  in the row and not empty in the row just before it, the value of that previous row,
  and the row's own value everywhere else.  A supplementary row directly followed by
  a primary row contributes nothing.  A supplementary row directly followed by another
  supplementary row is emitted as it is.  A supplementary row that is the last row is
  emitted exactly when one of quantity, unit price and total is not blank.
\<close>

theorem row_reconciliation:
  "merge_paired_rows raw_rows = concat (map (emitted_for raw_rows) [0..<length raw_rows]) \<and>
   (i < length raw_rows \<and> has_product_code (raw_rows ! i) \<and> 0 < i \<longrightarrow>
      (\<exists>m. emitted_for raw_rows i = [m] \<and>
        (\<forall>k \<in> set merged_keys.
           \<not> truthy (columns (raw_rows ! i) k) \<and> truthy (columns (raw_rows ! (i - 1)) k) \<longrightarrow>
           columns m k = columns (raw_rows ! (i - 1)) k) \<and>
        (\<forall>k. k \<notin> set merged_keys \<or> truthy (columns (raw_rows ! i) k) \<or>
              \<not> truthy (columns (raw_rows ! (i - 1)) k) \<longrightarrow>
           columns m k = columns (raw_rows ! i) k))) \<and>
   (i + 1 < length raw_rows \<and> \<not> has_product_code (raw_rows ! i) \<and>
      has_product_code (raw_rows ! (i + 1)) \<longrightarrow> emitted_for raw_rows i = []) \<and>
   (i + 1 < length raw_rows \<and> \<not> has_product_code (raw_rows ! i) \<and>
      \<not> has_product_code (raw_rows ! (i + 1)) \<longrightarrow> emitted_for raw_rows i = [raw_rows ! i]) \<and>
   (i + 1 = length raw_rows \<and> \<not> has_product_code (raw_rows ! i) \<longrightarrow>
      emitted_for raw_rows i = (if has_meaningful_data (raw_rows ! i) then [raw_rows ! i] else []))"
proof (intro conjI impI)
  show "merge_paired_rows raw_rows = concat (map (emitted_for raw_rows) [0..<length raw_rows])"
    by (rule merge_paired_rows_emitted)
next
  assume a: "i < length raw_rows \<and> has_product_code (raw_rows ! i) \<and> 0 < i"
  let ?m = "merge_from_prev (raw_rows ! i) (raw_rows ! (i - 1))"
  have "emitted_for raw_rows i = [?m]" using a emitted_primary by blast
  moreover have "\<forall>k \<in> set merged_keys.
           \<not> truthy (columns (raw_rows ! i) k) \<and> truthy (columns (raw_rows ! (i - 1)) k) \<longrightarrow>
           columns ?m k = columns (raw_rows ! (i - 1)) k"
    by (simp only: merge_from_prev_columns) simp
  moreover have "\<forall>k. k \<notin> set merged_keys \<or> truthy (columns (raw_rows ! i) k) \<or>
              \<not> truthy (columns (raw_rows ! (i - 1)) k) \<longrightarrow>
           columns ?m k = columns (raw_rows ! i) k"
    by (simp only: merge_from_prev_columns) auto
  ultimately show "\<exists>m. emitted_for raw_rows i = [m] \<and>
        (\<forall>k \<in> set merged_keys.
           \<not> truthy (columns (raw_rows ! i) k) \<and> truthy (columns (raw_rows ! (i - 1)) k) \<longrightarrow>
           columns m k = columns (raw_rows ! (i - 1)) k) \<and>
        (\<forall>k. k \<notin> set merged_keys \<or> truthy (columns (raw_rows ! i) k) \<or>
              \<not> truthy (columns (raw_rows ! (i - 1)) k) \<longrightarrow>
           columns m k = columns (raw_rows ! i) k)"
    by blast
next
  assume "i + 1 < length raw_rows \<and> \<not> has_product_code (raw_rows ! i) \<and> has_product_code (raw_rows ! (i + 1))"
  then show "emitted_for raw_rows i = []" using emitted_supplementary(1) by blast
next
  assume "i + 1 < length raw_rows \<and> \<not> has_product_code (raw_rows ! i) \<and> \<not> has_product_code (raw_rows ! (i + 1))"
  then show "emitted_for raw_rows i = [raw_rows ! i]" using emitted_supplementary(2) by blast
next
  assume "i + 1 = length raw_rows \<and> \<not> has_product_code (raw_rows ! i)"
  then show "emitted_for raw_rows i = (if has_meaningful_data (raw_rows ! i) then [raw_rows ! i] else [])"
    using emitted_supplementary(3) by blast
qed

lemma example_rows_nth:
  "[example_row 1 [] ''34.19'', example_row 2 ''MMA25.1.2'' []] ! 0 = example_row 1 [] ''34.19''"
  "[example_row 1 [] ''34.19'', example_row 2 ''MMA25.1.2'' []] ! 1 = example_row 2 ''MMA25.1.2'' []"
  "[example_row 1 [] ''34.19'', example_row 2 ''MMA25.1.2'' []] ! Suc 0 = example_row 2 ''MMA25.1.2'' []"
  "length [example_row 1 [] ''34.19'', example_row 2 ''MMA25.1.2'' []] = 2"
  by simp_all

lemma example_row_columns:
  "columns (example_row n c q) ''quantity'' = Some q"
  "columns (example_row n c q) ''product_code'' = Some c"
  by (simp_all add: example_row_def)

theorem row_reconciliation_witness:
  "\<exists>m. merge_paired_rows [example_row 1 [] ''34.19'', example_row 2 ''MMA25.1.2'' []] = [m] \<and>
     columns m ''quantity'' = Some ''34.19'' \<and> columns m ''product_code'' = Some ''MMA25.1.2''"
proof -
  let ?rows = "[example_row 1 [] ''34.19'', example_row 2 ''MMA25.1.2'' []]"
  have e0: "emitted_for ?rows 0 = []"
    using row_reconciliation[of ?rows 0] by (simp add: example_row_facts)
  have "\<exists>m. emitted_for ?rows 1 = [m] \<and>
        (\<forall>k \<in> set merged_keys.
           \<not> truthy (columns (?rows ! 1) k) \<and> truthy (columns (?rows ! (1 - 1)) k) \<longrightarrow>
           columns m k = columns (?rows ! (1 - 1)) k) \<and>
        (\<forall>k. k \<notin> set merged_keys \<or> truthy (columns (?rows ! 1) k) \<or>
              \<not> truthy (columns (?rows ! (1 - 1)) k) \<longrightarrow>
           columns m k = columns (?rows ! 1) k)"
    using row_reconciliation[of ?rows 1] by (simp add: example_row_facts)
  then obtain m where m: "emitted_for ?rows 1 = [m]"
    and mq: "\<forall>k \<in> set merged_keys.
           \<not> truthy (columns (?rows ! 1) k) \<and> truthy (columns (?rows ! (1 - 1)) k) \<longrightarrow>
           columns m k = columns (?rows ! (1 - 1)) k"
    and mo: "\<forall>k. k \<notin> set merged_keys \<or> truthy (columns (?rows ! 1) k) \<or>
              \<not> truthy (columns (?rows ! (1 - 1)) k) \<longrightarrow>
           columns m k = columns (?rows ! 1) k"
    by blast
  have q: "columns m ''quantity'' = Some ''34.19''"
    using mq[rule_format, of "''quantity''"]
    by (simp add: merged_keys_def example_row_columns truthy_def)
  have c: "columns m ''product_code'' = Some ''MMA25.1.2''"
    using mo[rule_format, of "''product_code''"]
    by (simp add: merged_keys_def example_row_columns)
  have "merge_paired_rows ?rows = emitted_for ?rows 0 @ emitted_for ?rows 1"
    using row_reconciliation[of ?rows 0] by (simp add: upt_rec)
  then show ?thesis using e0 m q c by simp
qed


subsection \<open>Delivery deduplication\<close>

lemma ddt_key_products_update [simp]:
  "ddt_key (d\<lparr>DeliveryData.products := ps\<rparr>) = ddt_key d"
  by (simp add: ddt_key_def)

lemma key_not_in:
  assumes "k \<notin> set (map ddt_key us)" "x \<in> set us"
  shows "ddt_key x \<noteq> k"
proof
  assume "ddt_key x = k"
  moreover have "ddt_key x \<in> ddt_key ` set us" using assms(2) by (rule imageI)
  ultimately show False using assms(1) by simp
qed

lemma seen_inv_step_new:
  assumes "seen_inv unique seen" "seen (ddt_key d) = None"
  shows "seen_inv (unique @ [d]) (seen(ddt_key d \<mapsto> length unique))"
proof -
  have notin: "ddt_key d \<notin> set (map ddt_key unique)"
  proof
    assume "ddt_key d \<in> set (map ddt_key unique)"
    then obtain i where "i < length unique" "ddt_key (unique ! i) = ddt_key d"
      by (auto simp: in_set_conv_nth)
    then have "seen (ddt_key d) = Some i" using assms(1) by (simp add: seen_inv_def)
    then show False using assms(2) by simp
  qed
  have ne: "\<And>i. i < length unique \<Longrightarrow> ddt_key (unique ! i) \<noteq> ddt_key d"
    using key_not_in[OF notin] by simp
  show ?thesis
    using assms(1) notin ne
    by (auto simp: seen_inv_def nth_append less_Suc_eq)
qed

lemma seen_inv_step_merge:
  assumes "seen_inv unique seen" "seen k = Some i"
  shows "seen_inv (unique[i := (unique ! i)\<lparr>DeliveryData.products := ps\<rparr>]) seen"
proof -
  have nth: "ddt_key (unique[i := (unique ! i)\<lparr>DeliveryData.products := ps\<rparr>] ! j) = ddt_key (unique ! j)"
    if "j < length unique" for j
    using that by (cases "j = i") simp_all
  have keys: "map ddt_key (unique[i := (unique ! i)\<lparr>DeliveryData.products := ps\<rparr>]) = map ddt_key unique"
    by (rule nth_equalityI) (simp_all add: nth)
  show ?thesis
    using assms(1) unfolding seen_inv_def keys
    by (auto simp: nth)
qed

lemma dedup_loop_inv:
  "seen_inv unique seen \<Longrightarrow> distinct (map ddt_key (dedup_loop ds unique seen))"
proof (induction ds arbitrary: unique seen)
  case Nil
  then show ?case by (simp add: seen_inv_def)
next
  case (Cons d ds)
  show ?case
  proof (cases "seen (ddt_key d)")
    case None
    have "dedup_loop (d # ds) unique seen =
        dedup_loop ds (unique @ [d]) (seen(ddt_key d \<mapsto> length unique))"
      using None by simp
    then show ?thesis using Cons.IH[OF seen_inv_step_new[OF Cons.prems None]] by (simp only:)
  next
    case (Some i)
    have "dedup_loop (d # ds) unique seen =
        dedup_loop ds (unique[i := (unique ! i)\<lparr>DeliveryData.products :=
            DeliveryData.products (unique ! i) @ DeliveryData.products d\<rparr>]) seen"
      using Some by simp
    then show ?thesis using Cons.IH[OF seen_inv_step_merge[OF Cons.prems Some]] by (simp only:)
  qed
qed

lemma products_for_key_append:
  "products_for_key k (xs @ ys) = products_for_key k xs @ products_for_key k ys"
  by (simp add: products_for_key_def)

lemma seen_inv_index: "seen_inv unique seen \<Longrightarrow> seen k = Some i \<Longrightarrow> i < length unique \<and> ddt_key (unique ! i) = k"
  by (simp add: seen_inv_def)

lemma seen_inv_none: "seen_inv unique seen \<Longrightarrow> seen k = None \<Longrightarrow> k \<notin> set (map ddt_key unique)"
proof
  assume a: "seen_inv unique seen" "seen k = None" "k \<in> set (map ddt_key unique)"
  then obtain i where "i < length unique" "ddt_key (unique ! i) = k"
    by (auto simp: in_set_conv_nth)
  then have "seen k = Some i" using a(1) by (simp add: seen_inv_def)
  then show False using a(2) by simp
qed

lemma seen_inv_some: "seen_inv unique seen \<Longrightarrow> seen k = Some i \<Longrightarrow> k \<in> set (map ddt_key unique)"
proof -
  assume a: "seen_inv unique seen" "seen k = Some i"
  have "i < length unique" "ddt_key (unique ! i) = k" using seen_inv_index[OF a] by simp_all
  then show ?thesis by auto
qed

lemma no_other_with_key:
  assumes "ddt_key u \<notin> set (map ddt_key us)"
  shows "filter (\<lambda>d. ddt_key d = ddt_key u) us = []"
proof -
  have "\<And>x. x \<in> set us \<Longrightarrow> ddt_key x \<noteq> ddt_key u"
    using assms by (rule key_not_in)
  then show ?thesis by (simp add: filter_empty_conv)
qed

lemma products_for_key_Cons:
  "products_for_key k (u # us) =
     (if ddt_key u = k then DeliveryData.products u else []) @ products_for_key k us"
  by (simp add: products_for_key_def)

lemma products_for_key_absent:
  "k \<notin> set (map ddt_key us) \<Longrightarrow> products_for_key k us = []"
proof -
  assume a: "k \<notin> set (map ddt_key us)"
  have "\<And>x. x \<in> set us \<Longrightarrow> ddt_key x \<noteq> k"
    using a by (rule key_not_in)
  then have "filter (\<lambda>d. ddt_key d = k) us = []" by (simp add: filter_empty_conv)
  then show ?thesis by (simp add: products_for_key_def)
qed

lemma products_for_key_update:
  assumes "distinct (map ddt_key unique)" "i < length unique"
  shows "products_for_key k (unique[i := (unique ! i)\<lparr>DeliveryData.products :=
            DeliveryData.products (unique ! i) @ ps\<rparr>])
         = products_for_key k unique @ (if ddt_key (unique ! i) = k then ps else [])"
  using assms
proof (induction unique arbitrary: i)
  case Nil
  then show ?case by simp
next
  case (Cons u us)
  have d: "distinct (map ddt_key us)" and un: "ddt_key u \<notin> set (map ddt_key us)"
    using Cons.prems(1) by simp_all
  show ?case
  proof (cases i)
    case 0
    show ?thesis
    proof (cases "ddt_key u = k")
      case True
      have "products_for_key k us = []" using un True products_for_key_absent by blast
      then show ?thesis using 0 True by (simp add: products_for_key_Cons)
    next
      case False
      then show ?thesis using 0 by (simp add: products_for_key_Cons)
    qed
  next
    case (Suc j)
    then have j: "j < length us" using Cons.prems(2) by simp
    have ih: "products_for_key k (us[j := (us ! j)\<lparr>DeliveryData.products :=
            DeliveryData.products (us ! j) @ ps\<rparr>])
         = products_for_key k us @ (if ddt_key (us ! j) = k then ps else [])"
      by (rule Cons.IH[OF d j])
    show ?thesis unfolding Suc by (simp add: products_for_key_Cons ih)
  qed
qed

lemma dedup_loop_products:
  "seen_inv unique seen \<Longrightarrow>
   products_for_key k (dedup_loop ds unique seen) = products_for_key k unique @ products_for_key k ds"
proof (induction ds arbitrary: unique seen)
  case Nil
  then show ?case by (simp add: products_for_key_def)
next
  case (Cons d ds)
  show ?case
  proof (cases "seen (ddt_key d)")
    case None
    have st: "dedup_loop (d # ds) unique seen =
        dedup_loop ds (unique @ [d]) (seen(ddt_key d \<mapsto> length unique))"
      using None by simp
    have "products_for_key k (dedup_loop ds (unique @ [d]) (seen(ddt_key d \<mapsto> length unique)))
        = products_for_key k (unique @ [d]) @ products_for_key k ds"
      by (rule Cons.IH[OF seen_inv_step_new[OF Cons.prems None]])
    then show ?thesis unfolding st by (simp add: products_for_key_def)
  next
    case (Some i)
    let ?u = "unique[i := (unique ! i)\<lparr>DeliveryData.products :=
            DeliveryData.products (unique ! i) @ DeliveryData.products d\<rparr>]"
    have st: "dedup_loop (d # ds) unique seen = dedup_loop ds ?u seen"
      using Some by simp
    have idx: "i < length unique" "ddt_key (unique ! i) = ddt_key d"
      using seen_inv_index[OF Cons.prems Some] by simp_all
    have dist: "distinct (map ddt_key unique)" using Cons.prems by (simp add: seen_inv_def)
    have "products_for_key k (dedup_loop ds ?u seen) = products_for_key k ?u @ products_for_key k ds"
      by (rule Cons.IH[OF seen_inv_step_merge[OF Cons.prems Some]])
    then show ?thesis unfolding st
      by (simp add: products_for_key_update[OF dist idx(1)] idx(2)) (simp add: products_for_key_def)
  qed
qed

lemma without_products_update:
  "i < length unique \<Longrightarrow>
   map without_products (unique[i := (unique ! i)\<lparr>DeliveryData.products := ps\<rparr>]) = map without_products unique"
  by (rule nth_equalityI) (simp_all add: nth_list_update without_products_def)

lemma dedup_loop_first:
  "seen_inv unique seen \<Longrightarrow>
   map without_products (dedup_loop ds unique seen) =
   map without_products unique @ map without_products (first_occurrences ds (map ddt_key unique))"
proof (induction ds arbitrary: unique seen)
  case Nil
  then show ?case by simp
next
  case (Cons d ds)
  show ?case
  proof (cases "seen (ddt_key d)")
    case None
    have st: "dedup_loop (d # ds) unique seen =
        dedup_loop ds (unique @ [d]) (seen(ddt_key d \<mapsto> length unique))"
      using None by simp
    have notin: "ddt_key d \<notin> set (map ddt_key unique)" by (rule seen_inv_none[OF Cons.prems None])
    have set_eq: "first_occurrences ds (map ddt_key (unique @ [d])) = first_occurrences ds (ddt_key d # map ddt_key unique)"
    proof -
      have "\<And>ks ks'. set ks = set ks' \<Longrightarrow> first_occurrences ds ks = first_occurrences ds ks'"
      proof (induction ds)
        case Nil
        then show ?case by simp
      next
        case (Cons e es)
        have "first_occurrences es (ddt_key e # ks) = first_occurrences es (ddt_key e # ks')"
          by (rule Cons.IH) (simp add: Cons.prems)
        moreover have "first_occurrences es ks = first_occurrences es ks'"
          by (rule Cons.IH) (rule Cons.prems)
        ultimately show ?case using Cons.prems by simp
      qed
      then show ?thesis by simp
    qed
    have "map without_products (dedup_loop ds (unique @ [d]) (seen(ddt_key d \<mapsto> length unique))) =
        map without_products (unique @ [d]) @
        map without_products (first_occurrences ds (map ddt_key (unique @ [d])))"
      by (rule Cons.IH[OF seen_inv_step_new[OF Cons.prems None]])
    then show ?thesis unfolding st set_eq using notin by simp
  next
    case (Some i)
    let ?u = "unique[i := (unique ! i)\<lparr>DeliveryData.products :=
            DeliveryData.products (unique ! i) @ DeliveryData.products d\<rparr>]"
    have st: "dedup_loop (d # ds) unique seen = dedup_loop ds ?u seen"
      using Some by simp
    have idx: "i < length unique" using seen_inv_index[OF Cons.prems Some] by simp
    have isin: "ddt_key d \<in> set (map ddt_key unique)" by (rule seen_inv_some[OF Cons.prems Some])
    have keys: "map ddt_key ?u = map ddt_key unique"
    proof (rule nth_equalityI)
      show "length (map ddt_key ?u) = length (map ddt_key unique)" by simp
    next
      fix j assume "j < length (map ddt_key ?u)"
      then have "j < length unique" by simp
      then show "map ddt_key ?u ! j = map ddt_key unique ! j"
        by (cases "j = i") simp_all
    qed
    have "map without_products (dedup_loop ds ?u seen) =
        map without_products ?u @ map without_products (first_occurrences ds (map ddt_key ?u))"
      by (rule Cons.IH[OF seen_inv_step_merge[OF Cons.prems Some]])
    then show ?thesis unfolding st keys without_products_update[OF idx] using isin by simp
  qed
qed

lemma seen_inv_empty: "seen_inv [] Map.empty"
  by (simp add: seen_inv_def)

lemma first_occurrences_keys:
  "set (map ddt_key (first_occurrences ds ks)) \<union> set ks = set (map ddt_key ds) \<union> set ks"
proof (induction ds arbitrary: ks)
  case Nil
  then show ?case by simp
next
  case (Cons d ds)
  show ?case using Cons.IH[of ks] Cons.IH[of "ddt_key d # ks"] by auto
qed

lemma products_for_key_unique:
  assumes "distinct (map ddt_key out)" "r \<in> set out"
  shows "products_for_key (ddt_key r) out = DeliveryData.products r"
  using assms
proof (induction out)
  case Nil
  then show ?case by simp
next
  case (Cons u us)
  have d: "distinct (map ddt_key us)" and un: "ddt_key u \<notin> set (map ddt_key us)"
    using Cons.prems(1) by simp_all
  show ?case
  proof (cases "r = u")
    case True
    have "products_for_key (ddt_key u) us = []" using un by (rule products_for_key_absent)
    then show ?thesis using True by (simp add: products_for_key_Cons)
  next
    case False
    then have r: "r \<in> set us" using Cons.prems(2) by simp
    have "ddt_key r \<noteq> ddt_key u" using key_not_in[OF un r] .
    then show ?thesis using Cons.IH[OF d r] by (simp add: products_for_key_Cons)
  qed
qed

lemma apply_completion_keeps:
  "ddt_key (apply_completion c d) = ddt_key d"
  "DeliveryData.products (apply_completion c d) = DeliveryData.products d"
  by (simp_all add: apply_completion_def Let_def ddt_key_def)

lemma completion_search_keeps:
  "ddt_key (completion_search edc d n pages) = ddt_key d \<and>
   DeliveryData.products (completion_search edc d n pages) = DeliveryData.products d"
  by (induction pages) (simp_all add: apply_completion_keeps split: option.splits)

lemma complete_delivery_keeps:
  "ddt_key (complete_delivery edc pages d) = ddt_key d"
  "DeliveryData.products (complete_delivery edc pages d) = DeliveryData.products d"
  by (simp_all add: complete_delivery_def completion_search_keeps split: option.splits)

lemma merged_has_each:
  assumes "d \<in> set ds"
  shows "\<exists>e \<in> set (merge_cross_page_deliveries edc ds pages).
           ddt_key e = ddt_key d \<and> DeliveryData.products e = DeliveryData.products d"
proof (cases "is_incomplete d")
  case True
  then have "complete_delivery edc pages d \<in> set (merge_cross_page_deliveries edc ds pages)"
    using assms by (simp add: merge_cross_page_deliveries_def)
  then show ?thesis using complete_delivery_keeps by blast
next
  case False
  then have "d \<in> set (merge_cross_page_deliveries edc ds pages)"
    using assms by (simp add: merge_cross_page_deliveries_def)
  then show ?thesis by blast
qed

lemma products_for_key_contains:
  assumes "e \<in> set ds"
  shows "set (DeliveryData.products e) \<subseteq> set (products_for_key (ddt_key e) ds)"
  using assms by (auto simp: products_for_key_def)

lemma distinct_pairs_of_keys:
  assumes "distinct (map ddt_key out)"
  shows "distinct (map ddt_pair out)"
proof -
  have k: "ddt_key = (\<lambda>p. fmt_opt (fst p) @ ''_'' @ fmt_opt (snd p)) \<circ> ddt_pair"
    by (rule ext) (simp add: ddt_key_def ddt_pair_def)
  have di: "distinct out" and inj: "inj_on ddt_key (set out)"
    using assms by (simp_all add: distinct_map)
  have "inj_on ddt_pair (set out)" using inj unfolding k by (rule inj_on_imageI2)
  then show ?thesis using di by (simp add: distinct_map)
qed

lemma without_products_key: "ddt_key (without_products d) = ddt_key d"
  by (simp add: without_products_def)

lemma compile_keys:
  "set (map ddt_key (compile_delivery_data edc pages)) = set (map ddt_key (merged_deliveries edc pages))"
proof -
  have "map without_products (compile_delivery_data edc pages) =
        map without_products (first_occurrences (merged_deliveries edc pages) [])"
    using dedup_loop_first[OF seen_inv_empty, of "merged_deliveries edc pages"]
    by (simp add: compile_delivery_data_def)
  then have "map ddt_key (map without_products (compile_delivery_data edc pages)) =
        map ddt_key (map without_products (first_occurrences (merged_deliveries edc pages) []))"
    by simp
  then have "map ddt_key (compile_delivery_data edc pages) =
        map ddt_key (first_occurrences (merged_deliveries edc pages) [])"
    by (simp add: without_products_key comp_def)
  then show ?thesis using first_occurrences_keys[of "merged_deliveries edc pages" "[]"] by simp
qed

text \<open>
  C9: in the compiled list no two deliveries have the same (series, number) pair; the
  deliveries kept are the first occurrences of their keys among the collected
  deliveries, with their own fields; each of them owns, in order, the products of all
  collected deliveries with its key; and every product of every delivery collected
  from the pages is owned by the kept delivery of the same key.
\<close>

theorem delivery_deduplication:
  "distinct (map ddt_pair (compile_delivery_data edc pages)) \<and>
   map without_products (compile_delivery_data edc pages) =
     map without_products (first_occurrences (merged_deliveries edc pages) []) \<and>
   (\<forall>r \<in> set (compile_delivery_data edc pages).
      DeliveryData.products r = products_for_key (ddt_key r) (merged_deliveries edc pages)) \<and>
   (\<forall>d \<in> set (collect_deliveries pages).
      \<exists>r \<in> set (compile_delivery_data edc pages).
        ddt_key r = ddt_key d \<and> set (DeliveryData.products d) \<subseteq> set (DeliveryData.products r))"
proof (intro conjI ballI)
  let ?out = "compile_delivery_data edc pages"
  let ?m = "merged_deliveries edc pages"
  have dk: "distinct (map ddt_key ?out)"
    using dedup_loop_inv[OF seen_inv_empty] by (simp add: compile_delivery_data_def)
  show "distinct (map ddt_pair ?out)" using dk by (rule distinct_pairs_of_keys)
  show "map without_products ?out = map without_products (first_occurrences ?m [])"
    using dedup_loop_first[OF seen_inv_empty, of ?m] by (simp add: compile_delivery_data_def)
  have pk: "\<And>k. products_for_key k ?out = products_for_key k ?m"
    using dedup_loop_products[OF seen_inv_empty, of _ ?m]
    by (simp add: compile_delivery_data_def products_for_key_def)
  show "DeliveryData.products r = products_for_key (ddt_key r) ?m" if "r \<in> set ?out" for r
    using products_for_key_unique[OF dk that] pk by simp
  show "\<exists>r \<in> set ?out. ddt_key r = ddt_key d \<and>
          set (DeliveryData.products d) \<subseteq> set (DeliveryData.products r)"
    if d: "d \<in> set (collect_deliveries pages)" for d
  proof -
    have ne: "collect_deliveries pages \<noteq> []" using d by auto
    have m: "?m = merge_cross_page_deliveries edc (collect_deliveries pages) pages"
      using ne by (simp add: merged_deliveries_def Let_def)
    obtain e where e: "e \<in> set ?m" "ddt_key e = ddt_key d"
        "DeliveryData.products e = DeliveryData.products d"
      using merged_has_each[OF d, of edc pages] unfolding m by blast
    have "ddt_key e \<in> set (map ddt_key ?out)" using e(1) compile_keys[of edc pages] by auto
    then obtain r where r: "r \<in> set ?out" "ddt_key r = ddt_key e" by auto
    have "DeliveryData.products r = products_for_key (ddt_key e) ?m"
      using products_for_key_unique[OF dk r(1)] pk r(2) by simp
    then have "set (DeliveryData.products d) \<subseteq> set (DeliveryData.products r)"
      using products_for_key_contains[OF e(1)] e(3) by simp
    then show ?thesis using r e(2) by auto
  qed
qed

lemma example_merged:
  "merged_deliveries no_completion example_pages =
     [example_delivery ''MS5LH0002'' ''3635'' [example_product ''MMA1'' ''2'' ''3'' ''6''],
      example_delivery ''MS5LH0002'' ''3635'' [example_product ''MMA2'' ''2'' ''3'' ''6''],
      example_delivery ''MS5LH0002'' ''3636'' [example_product ''MMA3'' ''2'' ''3'' ''6'']]"
  by (simp add: merged_deliveries_def collect_deliveries_def collect_page_deliveries_def
      example_pages_def delivery_page_def merge_cross_page_deliveries_def is_incomplete_def
      example_delivery_def truthy_def Let_def)

lemma example_keys:
  "ddt_key (example_delivery ''MS5LH0002'' ''3635'' ps) = ''MS5LH0002_3635''"
  "ddt_key (example_delivery ''MS5LH0002'' ''3636'' ps) = ''MS5LH0002_3636''"
  by (simp_all add: ddt_key_def example_delivery_def fmt_opt_def)

lemma example_delivery_products:
  "(example_delivery s n ps)\<lparr>DeliveryData.products := qs\<rparr> = example_delivery s n qs"
  "DeliveryData.products (example_delivery s n ps) = ps"
  by (simp_all add: example_delivery_def)

lemma example_compiled:
  "compile_delivery_data no_completion example_pages =
     [example_delivery ''MS5LH0002'' ''3635''
        [example_product ''MMA1'' ''2'' ''3'' ''6'', example_product ''MMA2'' ''2'' ''3'' ''6''],
      example_delivery ''MS5LH0002'' ''3636'' [example_product ''MMA3'' ''2'' ''3'' ''6'']]"
  by (simp add: compile_delivery_data_def example_merged example_keys example_delivery_products)

theorem delivery_deduplication_witness:
  "compile_delivery_data no_completion example_pages =
     [example_delivery ''MS5LH0002'' ''3635''
        [example_product ''MMA1'' ''2'' ''3'' ''6'', example_product ''MMA2'' ''2'' ''3'' ''6''],
      example_delivery ''MS5LH0002'' ''3636'' [example_product ''MMA3'' ''2'' ''3'' ''6'']] \<and>
   distinct (map ddt_pair (compile_delivery_data no_completion example_pages)) \<and>
   map DeliveryData.products (compile_delivery_data no_completion example_pages) =
     map (\<lambda>r. products_for_key (ddt_key r) (merged_deliveries no_completion example_pages))
       (compile_delivery_data no_completion example_pages)"
  using delivery_deduplication[of no_completion example_pages]
  by (simp add: example_compiled)


subsection \<open>Product and delivery association\<close>

lemma closest_loop_append:
  "closest_loop pp (xs @ ys) i best = closest_loop pp ys (i + length xs) (closest_loop pp xs i best)"
  by (induction xs arbitrary: i best) (simp_all add: Let_def)

lemma closest_loop_snoc:
  "closest_loop pp (xs @ [x]) i best = closest_step pp (closest_loop pp xs i best) x (i + length xs)"
  by (simp add: closest_loop_append closest_step_def Let_def)

lemma closest_loop_ok: "closest_ok pp xs (closest_loop pp xs 0 None)"
proof (induction xs rule: rev_induct)
  case Nil
  then show ?case by (simp add: closest_ok_def)
next
  case (snoc x xs)
  let ?r = "closest_loop pp xs 0 None"
  have st: "closest_loop pp (xs @ [x]) 0 None = closest_step pp ?r x (length xs)"
    using closest_loop_snoc[of pp xs x 0 None] by simp
  show ?case
  proof (cases ?r)
    case None
    then have all: "\<forall>k < length xs. pp < xs ! k" using snoc.IH by (simp add: closest_ok_def)
    show ?thesis
    proof (cases "x \<le> pp")
      case True
      then have r: "closest_step pp ?r x (length xs) = Some (pp - x, length xs)"
        using None by (simp add: closest_step_def)
      show ?thesis unfolding st r closest_ok_def using all True
        by (auto simp: nth_append less_Suc_eq)
    next
      case False
      then have r: "closest_step pp ?r x (length xs) = None"
        using None by (simp add: closest_step_def)
      show ?thesis unfolding st r closest_ok_def using all False
        by (auto simp: nth_append less_Suc_eq)
    qed
  next
    case (Some di)
    obtain d i where di: "di = (d, i)" by (cases di)
    have ih: "i < length xs" "xs ! i \<le> pp" "d = pp - xs ! i"
      "\<forall>j < length xs. xs ! j \<le> pp \<longrightarrow> xs ! j \<le> xs ! i"
      "\<forall>j < i. xs ! j \<le> pp \<longrightarrow> xs ! j < xs ! i"
      using snoc.IH Some di by (simp_all add: closest_ok_def)
    show ?thesis
    proof (cases "x \<le> pp \<and> pp - x < d")
      case True
      then have r: "closest_step pp ?r x (length xs) = Some (pp - x, length xs)"
        using Some di by (simp add: closest_step_def)
      have gt: "xs ! i < x" using True ih(2,3) by arith
      have a: "\<forall>j < length xs. xs ! j \<le> pp \<longrightarrow> xs ! j < x"
        using ih(4) gt by (meson le_less_trans)
      show ?thesis unfolding st r closest_ok_def using True a
        by (auto simp: nth_append less_Suc_eq)
    next
      case False
      then have r: "closest_step pp ?r x (length xs) = Some (d, i)"
        using Some di by (auto simp: closest_step_def)
      have le: "x \<le> pp \<longrightarrow> x \<le> xs ! i" using False ih(2,3) by arith
      show ?thesis unfolding st r closest_ok_def using ih le
        by (auto simp: nth_append less_Suc_eq)
    qed
  qed
qed

lemma target_index_preceding:
  assumes "\<exists>j < length dps. dps ! j \<le> pos"
  shows "target_index dps pos < length dps \<and> dps ! target_index dps pos \<le> pos \<and>
         (\<forall>j < length dps. dps ! j \<le> pos \<longrightarrow> dps ! j \<le> dps ! target_index dps pos) \<and>
         (\<forall>j < target_index dps pos. dps ! j \<le> pos \<longrightarrow> dps ! j < dps ! target_index dps pos)"
proof -
  have ok: "closest_ok pos dps (closest_loop pos dps 0 None)" by (rule closest_loop_ok)
  show ?thesis
  proof (cases "closest_loop pos dps 0 None")
    case None
    then have "\<forall>k < length dps. pos < dps ! k" using ok by (simp add: closest_ok_def)
    then show ?thesis using assms by (auto simp: not_le[symmetric])
  next
    case (Some di)
    obtain d i where di: "di = (d, i)" by (cases di)
    have t: "target_index dps pos = i"
      using Some di by (simp add: target_index_def find_closest_preceding_delivery_def)
    show ?thesis unfolding t using ok Some di by (simp add: closest_ok_def)
  qed
qed

lemma target_index_fallback:
  assumes "\<forall>j < length dps. pos < dps ! j"
  shows "target_index dps pos = 0"
proof (cases "closest_loop pos dps 0 None")
  case None
  then show ?thesis by (simp add: target_index_def find_closest_preceding_delivery_def)
next
  case (Some di)
  obtain d i where di: "di = (d, i)" by (cases di)
  have "i < length dps \<and> dps ! i \<le> pos"
    using closest_loop_ok[of pos dps] Some di by (simp add: closest_ok_def)
  then show ?thesis using assms by (auto simp: not_le[symmetric])
qed

lemma target_index_bound: "dps \<noteq> [] \<Longrightarrow> target_index dps pos < length dps"
proof (cases "\<exists>j < length dps. dps ! j \<le> pos")
  case True
  then show ?thesis using target_index_preceding by blast
next
  case False
  assume "dps \<noteq> []"
  moreover have "target_index dps pos = 0" using False by (intro target_index_fallback) (simp add: not_le)
  ultimately show ?thesis by simp
qed

lemma associate_fold:
  assumes "\<forall>pp \<in> set zs. target_index dps (snd pp) < length ds"
  shows "length (foldl (associate_one dps) ds zs) = length ds \<and>
         (\<forall>i < length ds.
            without_products (foldl (associate_one dps) ds zs ! i) = without_products (ds ! i) \<and>
            DeliveryData.products (foldl (associate_one dps) ds zs ! i) =
              DeliveryData.products (ds ! i) @
              map fst (filter (\<lambda>pp. target_index dps (snd pp) = i) zs))"
  using assms
proof (induction zs arbitrary: ds)
  case Nil
  then show ?case by simp
next
  case (Cons z zs)
  let ?t = "target_index dps (snd z)"
  let ?ds = "associate_one dps ds z"
  have t: "?t < length ds" using Cons.prems by simp
  have len: "length ?ds = length ds" by (simp add: associate_one_def Let_def)
  have step: "\<And>i. i < length ds \<Longrightarrow>
      without_products (?ds ! i) = without_products (ds ! i) \<and>
      DeliveryData.products (?ds ! i) = DeliveryData.products (ds ! i) @ (if ?t = i then [fst z] else [])"
    using t by (simp add: associate_one_def Let_def nth_list_update append_product_def without_products_def)
  have prem: "\<forall>pp \<in> set zs. target_index dps (snd pp) < length ?ds"
    using Cons.prems len by simp
  have ih: "length (foldl (associate_one dps) ?ds zs) = length ?ds \<and>
         (\<forall>i < length ?ds.
            without_products (foldl (associate_one dps) ?ds zs ! i) = without_products (?ds ! i) \<and>
            DeliveryData.products (foldl (associate_one dps) ?ds zs ! i) =
              DeliveryData.products (?ds ! i) @
              map fst (filter (\<lambda>pp. target_index dps (snd pp) = i) zs))"
    by (rule Cons.IH[OF prem])
  show ?case using ih step len by auto
qed

lemma zip_map_filter:
  "map fst (filter (\<lambda>pp. Q (snd pp)) (zip xs (map f xs))) = filter (\<lambda>x. Q (f x)) xs"
  by (induction xs) simp_all

lemma search_from_le: "search_from P s k = Some n \<Longrightarrow> n \<le> k + length s"
proof (induction s arbitrary: k)
  case Nil
  then show ?case by (simp split: if_splits)
next
  case (Cons c cs)
  show ?case
  proof (cases "P (c # cs)")
    case True
    then show ?thesis using Cons.prems by simp
  next
    case False
    then have "search_from P cs (Suc k) = Some n" using Cons.prems by simp
    then have "n \<le> Suc k + length cs" by (rule Cons.IH)
    then show ?thesis by simp
  qed
qed

lemma search_from_None: "search_from (\<lambda>t. startswith t p) s k = None \<longleftrightarrow> \<not> py_in p s"
  by (induction s arbitrary: k) (auto simp: startswith_def)

lemma word_search_le: "word_search q prev t k = Some n \<Longrightarrow> n \<le> k + length t"
proof (induction t arbitrary: prev k)
  case Nil
  then show ?case by (simp split: if_splits)
next
  case (Cons c cs)
  show ?case
  proof (cases "word_match_at q prev (c # cs)")
    case True
    then show ?thesis using Cons.prems by simp
  next
    case False
    then have "word_search q (Some c) cs (Suc k) = Some n" using Cons.prems by simp
    then have "n \<le> Suc k + length cs" by (rule Cons.IH)
    then show ?thesis by simp
  qed
qed

lemma find_delivery_position_cleared:
  "find_delivery_position t (d\<lparr>DeliveryData.products := ps\<rparr>) = find_delivery_position t d"
  by (simp add: find_delivery_position_def split: option.splits)

lemma find_delivery_position_le: "find_delivery_position t d \<le> length t"
proof -
  have a: "\<And>P n. search_from P t 0 = Some n \<Longrightarrow> n \<le> length t"
    using search_from_le by fastforce
  have b: "\<And>q n. word_search q None t 0 = Some n \<Longrightarrow> n \<le> length t"
    using word_search_le by fastforce
  show ?thesis
    by (auto simp: find_delivery_position_def split: option.splits dest: a b)
qed

lemma delivery_positions_cleared:
  "find_delivery_positions_in_text t (map (\<lambda>d. d\<lparr>DeliveryData.products := []\<rparr>) ds) =
   find_delivery_positions_in_text t ds"
  by (simp add: find_delivery_positions_in_text_def find_delivery_position_cleared)

lemma product_positions_all:
  assumes "\<forall>p \<in> set prods. product_code p \<noteq> None"
  shows "find_product_positions_in_text t prods =
           Inr (map (\<lambda>p. find_product_position t (the (product_code p))) prods)"
  using assms by (induction prods) auto

lemma not_found_position:
  "\<not> py_in code t \<Longrightarrow> find_product_position t code = length t"
  using search_from_None[of code t 0] by (simp add: find_product_position_def py_find_def)

text \<open>
  C5: on a page with deliveries and products, each product having a code, the
  association keeps the deliveries as they are and only sets their products.  With one
  delivery, it owns all products of the page.  Otherwise delivery \<open>i\<close> owns, in page
  order, the products assigned to \<open>i\<close>, so each product goes to exactly one delivery.
  The delivery assigned to a product is one whose position is at or before the position
  of the product and not before any other such delivery, if there is one, and the first
  delivery of the page if every delivery is after the product.  A product whose code
  does not occur in the text has the length of the text as position and goes to a
  delivery of greatest position.
\<close>

theorem product_delivery_association:
  assumes "all_deliveries page \<noteq> []" and "PageData.products page \<noteq> []"
    and "\<forall>p \<in> set (PageData.products page). product_code p \<noteq> None"
  shows "\<exists>page'. associate_products_with_deliveries page = Inr page' \<and>
     length (all_deliveries page') = length (all_deliveries page) \<and>
     (\<forall>i < length (all_deliveries page).
        without_products (all_deliveries page' ! i) = without_products (all_deliveries page ! i) \<and>
        DeliveryData.products (all_deliveries page' ! i) =
          (if length (all_deliveries page) = 1 then PageData.products page
           else filter (\<lambda>p. assigned_delivery page p = i) (PageData.products page))) \<and>
     (\<forall>p \<in> set (PageData.products page).
        assigned_delivery page p < length (delivery_positions page) \<and>
        ((\<exists>j < length (delivery_positions page). delivery_positions page ! j \<le> product_position page p) \<longrightarrow>
           delivery_positions page ! assigned_delivery page p \<le> product_position page p \<and>
           (\<forall>j < length (delivery_positions page).
              delivery_positions page ! j \<le> product_position page p \<longrightarrow>
              delivery_positions page ! j \<le> delivery_positions page ! assigned_delivery page p)) \<and>
        ((\<forall>j < length (delivery_positions page). product_position page p < delivery_positions page ! j) \<longrightarrow>
           assigned_delivery page p = 0) \<and>
        (\<not> py_in (the (product_code p)) (PageData.raw_text page) \<longrightarrow>
           product_position page p = length (PageData.raw_text page) \<and>
           (\<forall>j < length (delivery_positions page).
              delivery_positions page ! j \<le> delivery_positions page ! assigned_delivery page p)))"
proof -
  let ?ds = "all_deliveries page"
  let ?cleared = "map (\<lambda>d. d\<lparr>DeliveryData.products := []\<rparr>) ?ds"
  let ?dps = "delivery_positions page"
  let ?prods = "PageData.products page"
  let ?posf = "\<lambda>p. find_product_position (PageData.raw_text page) (the (product_code p))"
  have len_dps: "length ?dps = length ?ds"
    by (simp add: delivery_positions_def find_delivery_positions_in_text_def)
  have dps_ne: "?dps \<noteq> []" using assms(1) len_dps by auto
  have dps_le: "\<And>j. j < length ?dps \<Longrightarrow> ?dps ! j \<le> length (PageData.raw_text page)"
    by (simp add: delivery_positions_def find_delivery_positions_in_text_def find_delivery_position_le)
  have part2: "\<forall>p \<in> set ?prods.
        assigned_delivery page p < length ?dps \<and>
        ((\<exists>j < length ?dps. ?dps ! j \<le> product_position page p) \<longrightarrow>
           ?dps ! assigned_delivery page p \<le> product_position page p \<and>
           (\<forall>j < length ?dps. ?dps ! j \<le> product_position page p \<longrightarrow>
              ?dps ! j \<le> ?dps ! assigned_delivery page p)) \<and>
        ((\<forall>j < length ?dps. product_position page p < ?dps ! j) \<longrightarrow> assigned_delivery page p = 0) \<and>
        (\<not> py_in (the (product_code p)) (PageData.raw_text page) \<longrightarrow>
           product_position page p = length (PageData.raw_text page) \<and>
           (\<forall>j < length ?dps. ?dps ! j \<le> ?dps ! assigned_delivery page p))"
  proof
    fix p assume "p \<in> set ?prods"
    let ?pos = "product_position page p"
    let ?t = "assigned_delivery page p"
    have t: "?t = target_index ?dps ?pos" by (simp add: assigned_delivery_def)
    have c1: "?t < length ?dps" unfolding t using dps_ne by (rule target_index_bound)
    have c2: "(\<exists>j < length ?dps. ?dps ! j \<le> ?pos) \<longrightarrow>
           ?dps ! ?t \<le> ?pos \<and> (\<forall>j < length ?dps. ?dps ! j \<le> ?pos \<longrightarrow> ?dps ! j \<le> ?dps ! ?t)"
      unfolding t using target_index_preceding[of ?dps ?pos] by blast
    have c3: "(\<forall>j < length ?dps. ?pos < ?dps ! j) \<longrightarrow> ?t = 0"
      unfolding t using target_index_fallback[of ?dps ?pos] by blast
    have c4: "\<not> py_in (the (product_code p)) (PageData.raw_text page) \<longrightarrow>
           ?pos = length (PageData.raw_text page) \<and> (\<forall>j < length ?dps. ?dps ! j \<le> ?dps ! ?t)"
    proof
      assume nf: "\<not> py_in (the (product_code p)) (PageData.raw_text page)"
      have pos: "?pos = length (PageData.raw_text page)"
        using nf by (simp add: product_position_def not_found_position)
      have all: "\<forall>j < length ?dps. ?dps ! j \<le> ?pos" using dps_le pos by simp
      have ex: "\<exists>j < length ?dps. ?dps ! j \<le> ?pos" using all dps_ne by (auto simp: neq_Nil_conv)
      have "\<forall>j < length ?dps. ?dps ! j \<le> ?dps ! ?t" using c2 ex all by blast
      then show "?pos = length (PageData.raw_text page) \<and> (\<forall>j < length ?dps. ?dps ! j \<le> ?dps ! ?t)"
        using pos by blast
    qed
    show "?t < length ?dps \<and>
        ((\<exists>j < length ?dps. ?dps ! j \<le> ?pos) \<longrightarrow>
           ?dps ! ?t \<le> ?pos \<and> (\<forall>j < length ?dps. ?dps ! j \<le> ?pos \<longrightarrow> ?dps ! j \<le> ?dps ! ?t)) \<and>
        ((\<forall>j < length ?dps. ?pos < ?dps ! j) \<longrightarrow> ?t = 0) \<and>
        (\<not> py_in (the (product_code p)) (PageData.raw_text page) \<longrightarrow>
           ?pos = length (PageData.raw_text page) \<and> (\<forall>j < length ?dps. ?dps ! j \<le> ?dps ! ?t))"
      using c1 c2 c3 c4 by blast
  qed
  have part1: "\<exists>page'. associate_products_with_deliveries page = Inr page' \<and>
     length (all_deliveries page') = length ?ds \<and>
     (\<forall>i < length ?ds.
        without_products (all_deliveries page' ! i) = without_products (?ds ! i) \<and>
        DeliveryData.products (all_deliveries page' ! i) =
          (if length ?ds = 1 then ?prods else filter (\<lambda>p. assigned_delivery page p = i) ?prods))"
  proof (cases "length ?ds = 1")
    case True
    have r: "associate_products_with_deliveries page =
        Inr (page\<lparr>all_deliveries := [(?cleared ! 0)\<lparr>DeliveryData.products := ?prods\<rparr>]\<rparr>)"
      using assms(1,2) True by (simp add: associate_products_with_deliveries_def Let_def)
    show ?thesis unfolding r using True by (simp add: without_products_def)
  next
    case False
    let ?zs = "zip ?prods (map ?posf ?prods)"
    let ?out = "foldl (associate_one ?dps) ?cleared ?zs"
    have r: "associate_products_with_deliveries page = Inr (page\<lparr>all_deliveries := ?out\<rparr>)"
      using assms(1,2) False product_positions_all[OF assms(3), of "PageData.raw_text page"]
      by (simp add: associate_products_with_deliveries_def Let_def delivery_positions_cleared
          delivery_positions_def)
    have bound: "\<forall>pp \<in> set ?zs. target_index ?dps (snd pp) < length ?cleared"
      using target_index_bound[OF dps_ne] len_dps by simp
    have fold: "length ?out = length ?cleared \<and>
         (\<forall>i < length ?cleared.
            without_products (?out ! i) = without_products (?cleared ! i) \<and>
            DeliveryData.products (?out ! i) =
              DeliveryData.products (?cleared ! i) @
              map fst (filter (\<lambda>pp. target_index ?dps (snd pp) = i) ?zs))"
      by (rule associate_fold[OF bound])
    have zf: "\<And>i. map fst (filter (\<lambda>pp. target_index ?dps (snd pp) = i) ?zs) =
        filter (\<lambda>p. assigned_delivery page p = i) ?prods"
      using zip_map_filter[of "\<lambda>n. target_index ?dps n = _" ?prods ?posf]
      by (simp add: assigned_delivery_def product_position_def)
    show ?thesis unfolding r using fold False
      by (simp add: zf without_products_def)
  qed
  show ?thesis using part1 part2 by blast
qed

lemma assoc_page_fields:
  "PageData.raw_text assoc_page = ''MS5LH0002 3635 MMA1 MS5LH0002 3636 MMA2''"
  "all_deliveries assoc_page =
     [example_delivery ''MS5LH0002'' ''3635'' [], example_delivery ''MS5LH0002'' ''3636'' []]"
  "PageData.products assoc_page =
     [example_product ''MMA1'' ''2'' ''3'' ''6'', example_product ''MMA2'' ''2'' ''3'' ''6'',
      example_product ''MMA9'' ''2'' ''3'' ''6'']"
  by (simp_all add: assoc_page_def delivery_page_def)

lemma assoc_delivery_positions: "delivery_positions assoc_page = [0, 20]"
  by (simp add: delivery_positions_def assoc_page_fields find_delivery_positions_in_text_def
      find_delivery_position_def example_delivery_def fmt_opt_def series_number_at_def
      startswith_def py_isspace_def)

lemma assoc_product_positions:
  "product_position assoc_page (example_product ''MMA1'' q u t) = 15"
  "product_position assoc_page (example_product ''MMA2'' q u t) = 35"
  "product_position assoc_page (example_product ''MMA9'' q u t) = 39"
  by (simp_all add: product_position_def assoc_page_fields find_product_position_def py_find_def
      example_product_def startswith_def)

lemma assoc_assigned:
  "assigned_delivery assoc_page (example_product ''MMA1'' q u t) = 0"
  "assigned_delivery assoc_page (example_product ''MMA2'' q u t) = 1"
  "assigned_delivery assoc_page (example_product ''MMA9'' q u t) = 1"
  by (simp_all add: assigned_delivery_def assoc_delivery_positions assoc_product_positions
      target_index_def find_closest_preceding_delivery_def)

lemma assoc_codes: "\<forall>p \<in> set (PageData.products assoc_page). product_code p \<noteq> None"
  by (simp add: assoc_page_fields example_product_def)

theorem product_delivery_association_witness:
  "(\<exists>page'. associate_products_with_deliveries assoc_page = Inr page' \<and>
      DeliveryData.products (all_deliveries page' ! 0) = [example_product ''MMA1'' ''2'' ''3'' ''6''] \<and>
      DeliveryData.products (all_deliveries page' ! 1) =
        [example_product ''MMA2'' ''2'' ''3'' ''6'', example_product ''MMA9'' ''2'' ''3'' ''6'']) \<and>
   target_index [50, 900] 300 = 0 \<and> target_index [50, 900] 950 = 1"
proof -
  have a: "all_deliveries assoc_page \<noteq> []" "PageData.products assoc_page \<noteq> []"
    by (simp_all add: assoc_page_fields)
  obtain page' where r: "associate_products_with_deliveries assoc_page = Inr page'"
    and p: "\<forall>i < length (all_deliveries assoc_page).
        without_products (all_deliveries page' ! i) = without_products (all_deliveries assoc_page ! i) \<and>
        DeliveryData.products (all_deliveries page' ! i) =
          (if length (all_deliveries assoc_page) = 1 then PageData.products assoc_page
           else filter (\<lambda>p. assigned_delivery assoc_page p = i) (PageData.products assoc_page))"
    using product_delivery_association[OF a assoc_codes] by blast
  have p0: "DeliveryData.products (all_deliveries page' ! 0) = [example_product ''MMA1'' ''2'' ''3'' ''6'']"
    using p[rule_format, of 0] by (simp add: assoc_page_fields assoc_assigned)
  have p1: "DeliveryData.products (all_deliveries page' ! 1) =
        [example_product ''MMA2'' ''2'' ''3'' ''6'', example_product ''MMA9'' ''2'' ''3'' ''6'']"
    using p[rule_format, of 1] by (simp add: assoc_page_fields assoc_assigned)
  have t: "target_index [50, 900] 300 = 0" "target_index [50, 900] 950 = 1"
    by (simp_all add: target_index_def find_closest_preceding_delivery_def)
  show ?thesis using r p0 p1 t by blast
qed


subsection \<open>Boundary location\<close>
















subsection \<open>Column mapping\<close>

lemma setdefault_apply:
  "setdefault k v m k' = (if k' = k \<and> m k = None then Some v else m k')"
  by (simp add: setdefault_def split: option.splits)

lemma positional_fallback_apply:
  assumes "cols \<noteq> []"
  shows "positional_fallback cols m k =
     (case m k of Some v \<Rightarrow> Some v | None \<Rightarrow> map_option (col_at cols) (fallback_index k))"
proof -
  have c0: "Some (cols ! 0) = col_at cols 0" using assms by (simp add: col_at_def)
  show ?thesis
    unfolding positional_fallback_def setdefault_apply c0 fallback_index_def
    by (simp split: option.splits)
qed

lemma upd_not_none:
  "m k \<noteq> Some None \<Longrightarrow> (m(k' \<mapsto> Some c)) k \<noteq> Some None"
  by simp

lemma map_header_not_none:
  assumes "m k \<noteq> Some None"
  shows "map_header m ch k \<noteq> Some None"
  unfolding map_header_def Let_def
  by (intro if_split[where P = "\<lambda>f. f k \<noteq> Some None", THEN iffD2] conjI impI
        upd_not_none assms)

lemma foldl_map_header_not_none:
  "m k \<noteq> Some None \<Longrightarrow> foldl map_header m chs k \<noteq> Some None"
  by (induction chs arbitrary: m) (simp_all add: map_header_not_none)

lemma header_mapping_not_none: "header_mapping df k \<noteq> Some None"
  by (simp add: header_mapping_def foldl_map_header_not_none)

lemma validate_required_columns_iff:
  "validate_required_columns m \<longleftrightarrow> (\<forall>k\<in>set required_cols. \<exists>c. m k = Some (Some c))"
  by (auto simp add: validate_required_columns_def filter_empty_conv)

lemma header_mapping_cases:
  "header_mapping df k = None \<or> (\<exists>c. header_mapping df k = Some (Some c))"
  using header_mapping_not_none[of df k] by (cases "header_mapping df k") auto

lemma required_have_index:
  "k \<in> set required_cols \<Longrightarrow> \<exists>i. fallback_index k = Some i"
  by (auto simp add: required_cols_def fallback_index_def)

lemma fallback_mapped_iff:
  assumes "cols \<noteq> []" and "fallback_index k = Some i"
  shows "(\<exists>c. positional_fallback cols (header_mapping df) k = Some (Some c)) \<longleftrightarrow>
         header_mapping df k \<noteq> None \<or> i < length cols"
  using header_mapping_cases[of df k] assms
  by (auto simp add: positional_fallback_apply col_at_def)

lemma all_mapped_validates:
  assumes "list_all (\<lambda>r. header_mapping df r \<noteq> None) required_cols"
  shows "validate_required_columns (header_mapping df)"
  unfolding validate_required_columns_iff
proof
  fix k assume "k \<in> set required_cols"
  with assms have "header_mapping df k \<noteq> None" by (simp add: list_all_iff)
  with header_mapping_cases[of df k] show "\<exists>c. header_mapping df k = Some (Some c)" by blast
qed

lemma char_of_112: "char_of (112::nat) = CHR ''p''"
  by (simp add: char_of_def bit_Suc_0_iff)

lemma header_shifted:
  "header_mapping shifted_header_grid = [''product_code_raw'' \<mapsto> Some 1]"
  by (simp add: header_mapping_def shifted_header_grid_def map_header_def py_lower_def
        py_lower_char_def char_of_112 qta_fatt_def string_eval)

lemma header_narrow: "header_mapping narrow_grid = Map.empty"
  by (simp add: header_mapping_def narrow_grid_def map_header_def py_lower_def
        py_lower_char_def qta_fatt_def string_eval)

lemma shifted_columns: "df_columns shifted_header_grid = [0, 1, 2, 3, 4, 5, 6]"
  by (simp add: shifted_header_grid_def)

lemma narrow_columns: "df_columns narrow_grid = [0, 1]"
  by (simp add: narrow_grid_def)

lemma shifted_not_all_mapped:
  "\<not> list_all (\<lambda>r. header_mapping shifted_header_grid r \<noteq> None) required_cols"
  by (simp add: header_shifted required_cols_def)

lemma narrow_not_all_mapped:
  "\<not> list_all (\<lambda>r. header_mapping narrow_grid r \<noteq> None) required_cols"
  by (simp add: header_narrow required_cols_def)

lemma narrow_not_valid:
  "\<not> validate_required_columns (positional_fallback [0, 1] Map.empty)"
  by (simp add: validate_required_columns_iff required_cols_def positional_fallback_apply
        fallback_index_def col_at_def)

text \<open>
  C7 does not hold as stated.  On the seven-column grid the quantity is not found in
  the header, so the fallback runs, and the product code stays at column 1, the column
  its header named, although the first column is column 0.  On the two-column grid the
  quantity is still unmapped after the fallback, and the rows are read by the flexible
  extractor.
\<close>

theorem header_column_kept_and_flexible_rows:
  "header_mapping shifted_header_grid ''quantity'' = None \<and>
   map_table_columns shifted_header_grid =
     Inr (positional_fallback (df_columns shifted_header_grid) (header_mapping shifted_header_grid)) \<and>
   positional_fallback (df_columns shifted_header_grid) (header_mapping shifted_header_grid)
     ''product_code_raw'' = Some (Some 1) \<and>
   col_at (df_columns shifted_header_grid) 0 = Some 0 \<and>
   map_table_columns narrow_grid =
     Inr (positional_fallback (df_columns narrow_grid) (header_mapping narrow_grid)) \<and>
   positional_fallback (df_columns narrow_grid) (header_mapping narrow_grid) ''quantity'' = Some None \<and>
   extract_products_from_table structured_marker flexible_marker narrow_grid
     (positional_fallback (df_columns narrow_grid) (header_mapping narrow_grid)) =
     flexible_marker narrow_grid
       (positional_fallback (df_columns narrow_grid) (header_mapping narrow_grid)) \<and>
   flexible_marker narrow_grid
       (positional_fallback (df_columns narrow_grid) (header_mapping narrow_grid)) \<noteq>
   structured_marker narrow_grid
       (positional_fallback (df_columns narrow_grid) (header_mapping narrow_grid))"
proof (intro conjI)
  show "header_mapping shifted_header_grid ''quantity'' = None" by (simp add: header_shifted)
  show "map_table_columns shifted_header_grid =
     Inr (positional_fallback (df_columns shifted_header_grid) (header_mapping shifted_header_grid))"
    using shifted_not_all_mapped
    by (simp add: map_table_columns_def Let_def shifted_header_grid_def)
  show "positional_fallback (df_columns shifted_header_grid) (header_mapping shifted_header_grid)
     ''product_code_raw'' = Some (Some 1)"
    by (simp add: shifted_columns header_shifted positional_fallback_apply)
  show "col_at (df_columns shifted_header_grid) 0 = Some 0"
    by (simp add: shifted_columns col_at_def)
  show "map_table_columns narrow_grid =
     Inr (positional_fallback (df_columns narrow_grid) (header_mapping narrow_grid))"
    using narrow_not_all_mapped
    by (simp add: map_table_columns_def Let_def narrow_grid_def)
  show "positional_fallback (df_columns narrow_grid) (header_mapping narrow_grid) ''quantity'' = Some None"
    by (simp add: narrow_columns header_narrow positional_fallback_apply fallback_index_def col_at_def)
  show "extract_products_from_table structured_marker flexible_marker narrow_grid
     (positional_fallback (df_columns narrow_grid) (header_mapping narrow_grid)) =
     flexible_marker narrow_grid
       (positional_fallback (df_columns narrow_grid) (header_mapping narrow_grid))"
    using narrow_not_valid
    by (simp add: extract_products_from_table_def narrow_columns header_narrow)
       (simp add: narrow_grid_def)
  show "flexible_marker narrow_grid
       (positional_fallback (df_columns narrow_grid) (header_mapping narrow_grid)) \<noteq>
   structured_marker narrow_grid
       (positional_fallback (df_columns narrow_grid) (header_mapping narrow_grid))"
    by (simp add: flexible_marker_def structured_marker_def example_product_def)
qed

text \<open>
  C7, amended: for a grid with at least one row and one column the mapper returns a
  map.  When the header names all four mandatory roles it is the header's map.
  Otherwise every role keeps the column its header named, and a role the header did not
  name gets its fixed index (product code 0, customs code 2, unit of measure 3, quantity
  4, unit price 5, line total 6), or no column when the grid has too few columns.  The
  map is accepted exactly when every mandatory role was named by the header or has its
  fixed index inside the grid.  A grid of fewer than two rows gives no items; otherwise
  the rows are read by the structured extractor when the map is accepted and by the
  flexible extractor when it is not.
\<close>

theorem column_mapping_fallback:
  assumes "df_rows df \<noteq> []" and "df_columns df \<noteq> []"
  shows "\<exists>m. map_table_columns df = Inr m \<and>
     (\<forall>k. m k =
        (if list_all (\<lambda>r. header_mapping df r \<noteq> None) required_cols then header_mapping df k
         else case header_mapping df k of
                Some v \<Rightarrow> Some v
              | None \<Rightarrow> map_option (col_at (df_columns df)) (fallback_index k))) \<and>
     (validate_required_columns m \<longleftrightarrow>
        (\<forall>k\<in>set required_cols.
           header_mapping df k \<noteq> None \<or>
           (\<exists>i. fallback_index k = Some i \<and> i < length (df_columns df)))) \<and>
     extract_products_from_table structured flexible df m =
       (if length (df_rows df) < 2 then []
        else if \<forall>k\<in>set required_cols.
                  header_mapping df k \<noteq> None \<or>
                  (\<exists>i. fallback_index k = Some i \<and> i < length (df_columns df))
             then structured df m
             else flexible df m)"
proof (cases "list_all (\<lambda>r. header_mapping df r \<noteq> None) required_cols")
  case True
  let ?m = "header_mapping df"
  have m: "map_table_columns df = Inr ?m"
    using True assms by (simp add: map_table_columns_def Let_def)
  have v: "validate_required_columns ?m" using True by (rule all_mapped_validates)
  have r: "\<forall>k\<in>set required_cols. header_mapping df k \<noteq> None \<or>
             (\<exists>i. fallback_index k = Some i \<and> i < length (df_columns df))"
    using True by (simp add: list_all_iff)
  show ?thesis
    apply (rule exI[of _ ?m])
    using m v r True by (simp add: extract_products_from_table_def)
next
  case False
  let ?m = "positional_fallback (df_columns df) (header_mapping df)"
  have m: "map_table_columns df = Inr ?m"
    using False assms by (simp add: map_table_columns_def Let_def)
  have v: "validate_required_columns ?m \<longleftrightarrow>
        (\<forall>k\<in>set required_cols.
           header_mapping df k \<noteq> None \<or>
           (\<exists>i. fallback_index k = Some i \<and> i < length (df_columns df)))"
    unfolding validate_required_columns_iff
  proof (rule ball_cong[OF refl])
    fix k assume "k \<in> set required_cols"
    then obtain i where i: "fallback_index k = Some i" using required_have_index by blast
    show "(\<exists>c. ?m k = Some (Some c)) \<longleftrightarrow>
          (header_mapping df k \<noteq> None \<or> (\<exists>i. fallback_index k = Some i \<and> i < length (df_columns df)))"
      using fallback_mapped_iff[OF assms(2) i, of df] i by simp
  qed
  have a: "\<forall>k. ?m k = (case header_mapping df k of
                Some v \<Rightarrow> Some v
              | None \<Rightarrow> map_option (col_at (df_columns df)) (fallback_index k))"
    using positional_fallback_apply[OF assms(2)] by blast
  show ?thesis
    apply (rule exI[of _ ?m])
    using m a False
    by (simp add: extract_products_from_table_def v)
qed

text \<open>
  The amended statement at the seven-column grid: the product code stays at column 1,
  the other roles get their fixed indices, the map is accepted, and the structured
  extractor reads the rows.
\<close>

theorem column_mapping_fallback_witness:
  "df_rows shifted_header_grid \<noteq> [] \<and> df_columns shifted_header_grid \<noteq> [] \<and>
   \<not> list_all (\<lambda>r. header_mapping shifted_header_grid r \<noteq> None) required_cols \<and>
   (\<exists>m. map_table_columns shifted_header_grid = Inr m \<and>
      m ''product_code_raw'' = Some (Some 1) \<and> m ''customs_code'' = Some (Some 2) \<and>
      m ''unit_measure'' = Some (Some 3) \<and> m ''quantity'' = Some (Some 4) \<and>
      m ''unit_price'' = Some (Some 5) \<and> m ''line_total'' = Some (Some 6) \<and>
      validate_required_columns m \<and>
      extract_products_from_table structured_marker flexible_marker shifted_header_grid m =
        structured_marker shifted_header_grid m)"
proof -
  have r: "df_rows shifted_header_grid \<noteq> []" by (simp add: shifted_header_grid_def)
  have c: "df_columns shifted_header_grid \<noteq> []" by (simp add: shifted_columns)
  have l: "length (df_rows shifted_header_grid) = 2" by (simp add: shifted_header_grid_def)
  have i: "\<forall>k\<in>set required_cols.
             header_mapping shifted_header_grid k \<noteq> None \<or>
             (\<exists>i. fallback_index k = Some i \<and> i < length (df_columns shifted_header_grid))"
    by (simp add: required_cols_def shifted_columns fallback_index_def)
  from column_mapping_fallback[OF r c, of structured_marker flexible_marker]
  obtain m where m: "map_table_columns shifted_header_grid = Inr m"
    and a: "\<And>k. m k =
        (if list_all (\<lambda>r. header_mapping shifted_header_grid r \<noteq> None) required_cols
         then header_mapping shifted_header_grid k
         else case header_mapping shifted_header_grid k of
                Some v \<Rightarrow> Some v
              | None \<Rightarrow> map_option (col_at (df_columns shifted_header_grid)) (fallback_index k))"
    and v: "validate_required_columns m \<longleftrightarrow>
        (\<forall>k\<in>set required_cols.
           header_mapping shifted_header_grid k \<noteq> None \<or>
           (\<exists>i. fallback_index k = Some i \<and> i < length (df_columns shifted_header_grid)))"
    and e: "extract_products_from_table structured_marker flexible_marker shifted_header_grid m =
       (if length (df_rows shifted_header_grid) < 2 then []
        else if \<forall>k\<in>set required_cols.
                  header_mapping shifted_header_grid k \<noteq> None \<or>
                  (\<exists>i. fallback_index k = Some i \<and> i < length (df_columns shifted_header_grid))
             then structured_marker shifted_header_grid m
             else flexible_marker shifted_header_grid m)"
    by blast
  have a': "\<And>k. m k = (case header_mapping shifted_header_grid k of
                Some v \<Rightarrow> Some v
              | None \<Rightarrow> map_option (col_at [0, 1, 2, 3, 4, 5, 6]) (fallback_index k))"
    using a by (simp only: shifted_not_all_mapped if_False shifted_columns)
  have "m ''product_code_raw'' = Some (Some 1) \<and> m ''customs_code'' = Some (Some 2) \<and>
      m ''unit_measure'' = Some (Some 3) \<and> m ''quantity'' = Some (Some 4) \<and>
      m ''unit_price'' = Some (Some 5) \<and> m ''line_total'' = Some (Some 6)"
    by (simp add: a' header_shifted fallback_index_def col_at_def)
  moreover have "validate_required_columns m" using v i by simp
  moreover have "extract_products_from_table structured_marker flexible_marker shifted_header_grid m =
        structured_marker shifted_header_grid m"
    using e i l by simp
  ultimately show ?thesis using r c shifted_not_all_mapped m by blast
qed

end
